theory Spec2Isabelle
  imports Complex_Main "HOL-Library.Word"
begin

section \<open>The Python primitives the program uses\<close>

text \<open>
  A \<open>bytes\<close>/\<open>bytearray\<close> value is a list of bytes; each element is an integer in
  \<open>range(256)\<close>, hence an 8-bit word. Python's unbounded integers are \<open>int\<close>; a
  \<open>str\<close> is a \<open>string\<close>. Every exception the program can raise is a value of
  \<open>error\<close>: \<open>ProtocolMismatch\<close> is the
  \<^verbatim>\<open>Exception('Invalid status report received!')\<close> of \<^verbatim>\<open>_get_status_report\<close>.
\<close>

type_synonym byte = "8 word"

datatype error = IndexError | ValueError | OverflowError | ProtocolMismatch

definition ebind :: "error + 'a \<Rightarrow> ('a \<Rightarrow> error + 'b) \<Rightarrow> error + 'b" where
  "ebind m f = (case m of Inl e \<Rightarrow> Inl e | Inr x \<Rightarrow> f x)"

definition is_ok :: "error + 'a \<Rightarrow> bool" where
  "is_ok m = (case m of Inl e \<Rightarrow> False | Inr x \<Rightarrow> True)"

text \<open>\<^verbatim>\<open>xs[i]\<close> with a non-negative index: IndexError out of range.\<close>

definition getitem :: "'a list \<Rightarrow> nat \<Rightarrow> error + 'a" where
  "getitem xs i = (if i < length xs then Inr (xs ! i) else Inl IndexError)"

text \<open>\<^verbatim>\<open>xs[a:b]\<close> with non-negative bounds: never raises, clamps at the end.\<close>

definition pyslice :: "nat \<Rightarrow> nat \<Rightarrow> 'a list \<Rightarrow> 'a list" where
  "pyslice a b xs = take (b - a) (drop a xs)"

text \<open>\<^verbatim>\<open>bytes.hex()\<close>: two lowercase hexadecimal digits for each byte.\<close>

definition hexdigit :: "nat \<Rightarrow> char" where
  "hexdigit n = ''0123456789abcdef'' ! n"

definition hex_byte :: "byte \<Rightarrow> string" where
  "hex_byte b = [hexdigit (unat b div 16), hexdigit (unat b mod 16)]"

definition hex :: "byte list \<Rightarrow> string" where
  "hex bs = concat (map hex_byte bs)"

text \<open>
  \<^verbatim>\<open>int(s, 16)\<close> on the strings the program builds: an optional leading minus sign
  (only \<^verbatim>\<open>'{:04x}'.format\<close> of a negative height makes one), then one or more
  hexadecimal digits; ValueError otherwise, in particular on the empty string.
\<close>

definition hexval :: "char \<Rightarrow> nat option" where
  "hexval = map_of
     [(CHR ''0'', 0), (CHR ''1'', 1), (CHR ''2'', 2), (CHR ''3'', 3), (CHR ''4'', 4),
      (CHR ''5'', 5), (CHR ''6'', 6), (CHR ''7'', 7), (CHR ''8'', 8), (CHR ''9'', 9),
      (CHR ''a'', 10), (CHR ''b'', 11), (CHR ''c'', 12), (CHR ''d'', 13), (CHR ''e'', 14),
      (CHR ''f'', 15), (CHR ''A'', 10), (CHR ''B'', 11), (CHR ''C'', 12), (CHR ''D'', 13),
      (CHR ''E'', 14), (CHR ''F'', 15)]"

fun digits16 :: "string \<Rightarrow> nat \<Rightarrow> nat option" where
  "digits16 [] acc = Some acc"
| "digits16 (c # cs) acc =
     (case hexval c of None \<Rightarrow> None | Some d \<Rightarrow> digits16 cs (16 * acc + d))"

definition unsigned16 :: "string \<Rightarrow> error + int" where
  "unsigned16 s =
     (if s = [] then Inl ValueError
      else case digits16 s 0 of None \<Rightarrow> Inl ValueError | Some n \<Rightarrow> Inr (int n))"

definition int_base16 :: "string \<Rightarrow> error + int" where
  "int_base16 s =
     (if s \<noteq> [] \<and> hd s = CHR ''-'' then ebind (unsigned16 (tl s)) (\<lambda>n. Inr (- n))
      else unsigned16 s)"

text \<open>\<^verbatim>\<open>bin(n)\<close>: the binary digits without leading zeros, after \<^verbatim>\<open>0b\<close>.\<close>

definition bitchar :: "nat \<Rightarrow> char" where
  "bitchar n = (if n = 0 then CHR ''0'' else CHR ''1'')"

fun bin_digits :: "nat \<Rightarrow> string" where
  "bin_digits n = (if n < 2 then [bitchar n] else bin_digits (n div 2) @ [bitchar (n mod 2)])"

declare bin_digits.simps [simp del]

definition bin :: "int \<Rightarrow> string" where
  "bin n = (if n < 0 then ''-0b'' @ bin_digits (nat (- n)) else ''0b'' @ bin_digits (nat n))"

text \<open>\<^verbatim>\<open>s.lstrip(chars)\<close> removes the leading characters that occur in \<open>chars\<close>.\<close>

definition lstrip :: "string \<Rightarrow> string \<Rightarrow> string" where
  "lstrip chars s = dropWhile (\<lambda>c. c \<in> set chars) s"

text \<open>\<^verbatim>\<open>'{:0>8s}'.format(s)\<close>: right-aligned in width 8, filled with \<^verbatim>\<open>0\<close>.\<close>

definition format_0r8s :: "string \<Rightarrow> string" where
  "format_0r8s s = replicate (8 - length s) CHR ''0'' @ s"

text \<open>\<^verbatim>\<open>s.zfill(w)\<close>: zeros on the left up to width \<open>w\<close>, after a leading sign.\<close>

definition zfill :: "nat \<Rightarrow> string \<Rightarrow> string" where
  "zfill w s =
     (if s \<noteq> [] \<and> (hd s = CHR ''+'' \<or> hd s = CHR ''-'')
      then hd s # replicate (w - length s) CHR ''0'' @ tl s
      else replicate (w - length s) CHR ''0'' @ s)"

text \<open>
  \<^verbatim>\<open>'{:04x}'.format(n)\<close>: lowercase hexadecimal, at least four characters, the sign
  counted in the width and the zeros put after it.
\<close>

fun hex_digits :: "nat \<Rightarrow> string" where
  "hex_digits n = (if n < 16 then [hexdigit n] else hex_digits (n div 16) @ [hexdigit (n mod 16)])"

declare hex_digits.simps [simp del]

definition format_04x :: "int \<Rightarrow> string" where
  "format_04x n =
     (if n < 0 then CHR ''-'' # replicate (3 - length (hex_digits (nat (- n)))) CHR ''0''
                     @ hex_digits (nat (- n))
      else replicate (4 - length (hex_digits (nat n))) CHR ''0'' @ hex_digits (nat n))"

text \<open>\<^verbatim>\<open>buf[i] = v\<close> on a bytearray: ValueError unless \<open>v\<close> is in \<open>range(256)\<close>.\<close>

definition to_byte :: "int \<Rightarrow> error + byte" where
  "to_byte v = (if 0 \<le> v \<and> v < 256 then Inr (word_of_int v) else Inl ValueError)"

subsection \<open>Floats\<close>

text \<open>
  A Python \<open>float\<close> is an IEEE 754 binary64 number. A finite one is modelled by the
  rational number it denotes. \<open>round_double x\<close> is the binary64 number nearest to \<open>x\<close>, ties
  going to the even significand: \<open>binade a\<close> is the exponent \<open>e\<close> with
  \<open>2 ^ e \<le> a < 2 ^ (e + 1)\<close>, and the significand \<open>a / 2 ^ (e - 52)\<close> is rounded to an
  integer of 53 bits. This is the rounding of the hardware as long as the result is not
  subnormal and does not overflow (\<open>2 ^ -1022 \<le> |x| < 2 ^ 1024\<close>).
\<close>

fun log2_floor :: "nat \<Rightarrow> nat" where
  "log2_floor n = (if n < 2 then 0 else Suc (log2_floor (n div 2)))"

declare log2_floor.simps [simp del]

definition binade :: "rat \<Rightarrow> int" where
  "binade x =
     (let (p, q) = quotient_of x;
          e0 = int (log2_floor (nat p)) - int (log2_floor (nat q))
      in if 2 powi e0 \<le> x then e0 else e0 - 1)"

definition round_half_even :: "rat \<Rightarrow> int" where
  "round_half_even y =
     (let f = \<lfloor>y\<rfloor>; d = y - of_int f
      in if d < 1 / 2 then f else if 1 / 2 < d then f + 1 else if even f then f else f + 1)"

definition round_double :: "rat \<Rightarrow> rat" where
  "round_double x =
     (if x = 0 then 0
      else let a = \<bar>x\<bar>; e = binade a; m = round_half_even (a * 2 powi (52 - e))
           in sgn x * of_int m * 2 powi (e - 52))"

text \<open>
  \<^verbatim>\<open>float(n)\<close> for an \<open>int\<close>, as the true division of an \<open>int\<close> by a \<open>float\<close> makes it:
  the nearest binary64 number, OverflowError when that is beyond the largest one.
\<close>

definition float_of_int :: "int \<Rightarrow> error + rat" where
  "float_of_int n =
     (let a = round_double (of_int n)
      in if 2 ^ 1024 \<le> \<bar>a\<bar> then Inl OverflowError else Inr a)"

text \<open>
  \<^verbatim>\<open>n / 98.0\<close> for an \<open>int\<close> \<open>n\<close>: \<open>n\<close> is converted, then divided by the binary64 number
  98 with one rounding. The converted \<open>n\<close> is 0 or at least 1 in magnitude and below
  \<open>2 ^ 1024\<close>, so the quotient is 0 or in the range where \<open>round_double\<close> is the rounding
  of the hardware.
\<close>

definition truediv_98 :: "int \<Rightarrow> error + rat" where
  "truediv_98 n = ebind (float_of_int n) (\<lambda>a. Inr (round_double (a / 98)))"

section \<open>Constants\<close>

definition CMD_STATUS_REPORT :: byte where "CMD_STATUS_REPORT = 4"
definition LEN_STATUS_REPORT :: nat where "LEN_STATUS_REPORT = 64"
definition NRB_STATUS_REPORT :: byte where "NRB_STATUS_REPORT = 56"
definition CMD_CONTROL_CBC :: byte where "CMD_CONTROL_CBC = 5"

section \<open>The report decoder\<close>

subsection \<open>\<^verbatim>\<open>Status\<close>\<close>

record Status =
  positionLost :: bool
  antiColision :: bool
  overloadDown :: bool
  overloadUp :: bool
  unknown :: int

text \<open>The class attributes are the values of a fresh instance.\<close>

definition Status_new :: Status where
  "Status_new = \<lparr>positionLost = True, antiColision = True, overloadDown = True,
                 overloadUp = True, Status.unknown = 4\<rparr>"

text \<open>\<^verbatim>\<open>setattr(self, attr[index], v)\<close> for the four names of \<open>attr\<close>.\<close>

definition Status_setattr :: "nat \<Rightarrow> bool \<Rightarrow> Status \<Rightarrow> Status" where
  "Status_setattr index v self =
     (if index = 0 then self\<lparr>positionLost := v\<rparr>
      else if index = 1 then self\<lparr>antiColision := v\<rparr>
      else if index = 2 then self\<lparr>overloadDown := v\<rparr>
      else self\<lparr>overloadUp := v\<rparr>)"

text \<open>The loop over \<^verbatim>\<open>enumerate(attr)\<close>; \<^verbatim>\<open>bitlist[index]\<close> may raise.\<close>

fun Status_loop :: "nat list \<Rightarrow> string \<Rightarrow> Status \<Rightarrow> error + Status" where
  "Status_loop [] bitlist self = Inr self"
| "Status_loop (index # rest) bitlist self =
     ebind (getitem bitlist index)
       (\<lambda>c. Status_loop rest bitlist (Status_setattr index (c = CHR ''1'') self))"

definition Status_from_buf :: "string \<Rightarrow> error + Status" where
  "Status_from_buf buf =
     ebind (int_base16 buf) (\<lambda>n.
     ebind (Status_loop [0, 1, 2, 3] (format_0r8s (lstrip ''0b'' (bin n))) Status_new) (\<lambda>self.
     ebind (int_base16 (drop 1 buf)) (\<lambda>u.
     Inr (self\<lparr>Status.unknown := u\<rparr>))))"

subsection \<open>\<^verbatim>\<open>StatusPositionSpeed\<close>\<close>

record StatusPositionSpeed =
  pos :: int
  status :: Status
  speed :: int

definition StatusPositionSpeed_from_buf :: "string \<Rightarrow> error + StatusPositionSpeed" where
  "StatusPositionSpeed_from_buf buf =
     ebind (int_base16 (pyslice 2 4 buf @ pyslice 0 2 buf)) (\<lambda>p.
     ebind (Status_from_buf (pyslice 4 6 buf)) (\<lambda>st.
     ebind (int_base16 (pyslice 6 8 buf)) (\<lambda>sp.
     Inr \<lparr>pos = p, status = st, speed = sp\<rparr>)))"

subsection \<open>\<^verbatim>\<open>ValidFlags\<close>\<close>

record ValidFlags =
  ID00_Ref1_pos_stat_speed :: bool
  ID01_Ref2_pos_stat_speed :: bool
  ID02_Ref3_pos_stat_speed :: bool
  ID03_Ref4_pos_stat_speed :: bool
  ID10_Ref1_controlInput :: bool
  ID11_Ref2_controlInput :: bool
  ID12_Ref3_controlInput :: bool
  ID13_Ref4_controlInput :: bool
  ID04_Ref5_pos_stat_speed :: bool
  ID28_Diagnostic :: bool
  ID05_Ref6_pos_stat_speed :: bool
  ID37_Handset1command :: bool
  ID38_Handset2command :: bool
  ID06_Ref7_pos_stat_speed :: bool
  ID07_Ref8_pos_stat_speed :: bool
  unknown :: bool

definition ValidFlags_new :: ValidFlags where
  "ValidFlags_new =
     \<lparr>ID00_Ref1_pos_stat_speed = True, ID01_Ref2_pos_stat_speed = True,
      ID02_Ref3_pos_stat_speed = True, ID03_Ref4_pos_stat_speed = True,
      ID10_Ref1_controlInput = True, ID11_Ref2_controlInput = True,
      ID12_Ref3_controlInput = True, ID13_Ref4_controlInput = True,
      ID04_Ref5_pos_stat_speed = True, ID28_Diagnostic = True,
      ID05_Ref6_pos_stat_speed = True, ID37_Handset1command = True,
      ID38_Handset2command = True, ID06_Ref7_pos_stat_speed = True,
      ID07_Ref8_pos_stat_speed = True, ValidFlags.unknown = True\<rparr>"

text \<open>\<^verbatim>\<open>setattr(self, attr[idx], v)\<close>: \<open>attr\<close> has sixteen names, IndexError beyond.\<close>

definition ValidFlags_setattr :: "nat \<Rightarrow> bool \<Rightarrow> ValidFlags \<Rightarrow> error + ValidFlags" where
  "ValidFlags_setattr idx v self =
     (if idx = 0 then Inr (self\<lparr>ID00_Ref1_pos_stat_speed := v\<rparr>)
      else if idx = 1 then Inr (self\<lparr>ID01_Ref2_pos_stat_speed := v\<rparr>)
      else if idx = 2 then Inr (self\<lparr>ID02_Ref3_pos_stat_speed := v\<rparr>)
      else if idx = 3 then Inr (self\<lparr>ID03_Ref4_pos_stat_speed := v\<rparr>)
      else if idx = 4 then Inr (self\<lparr>ID10_Ref1_controlInput := v\<rparr>)
      else if idx = 5 then Inr (self\<lparr>ID11_Ref2_controlInput := v\<rparr>)
      else if idx = 6 then Inr (self\<lparr>ID12_Ref3_controlInput := v\<rparr>)
      else if idx = 7 then Inr (self\<lparr>ID13_Ref4_controlInput := v\<rparr>)
      else if idx = 8 then Inr (self\<lparr>ID04_Ref5_pos_stat_speed := v\<rparr>)
      else if idx = 9 then Inr (self\<lparr>ID28_Diagnostic := v\<rparr>)
      else if idx = 10 then Inr (self\<lparr>ID05_Ref6_pos_stat_speed := v\<rparr>)
      else if idx = 11 then Inr (self\<lparr>ID37_Handset1command := v\<rparr>)
      else if idx = 12 then Inr (self\<lparr>ID38_Handset2command := v\<rparr>)
      else if idx = 13 then Inr (self\<lparr>ID06_Ref7_pos_stat_speed := v\<rparr>)
      else if idx = 14 then Inr (self\<lparr>ID07_Ref8_pos_stat_speed := v\<rparr>)
      else if idx = 15 then Inr (self\<lparr>ValidFlags.unknown := v\<rparr>)
      else Inl IndexError)"

text \<open>The loop over \<^verbatim>\<open>enumerate(bin(int(buf, base=16))[2:].zfill(16))\<close>.\<close>

fun ValidFlags_loop :: "nat \<Rightarrow> string \<Rightarrow> ValidFlags \<Rightarrow> error + ValidFlags" where
  "ValidFlags_loop idx [] self = Inr self"
| "ValidFlags_loop idx (c # cs) self =
     ebind (ValidFlags_setattr idx (c = CHR ''1'') self) (ValidFlags_loop (Suc idx) cs)"

definition ValidFlags_from_buf :: "string \<Rightarrow> error + ValidFlags" where
  "ValidFlags_from_buf buf =
     ebind (int_base16 buf) (\<lambda>n.
     ValidFlags_loop 0 (zfill 16 (drop 2 (bin n))) ValidFlags_new)"

subsection \<open>\<^verbatim>\<open>StatusReport\<close>\<close>

record StatusReport =
  featureRaportID :: int
  numberOfBytes :: int
  validFlag :: ValidFlags
  ref1 :: StatusPositionSpeed
  ref2 :: StatusPositionSpeed
  ref3 :: StatusPositionSpeed
  ref4 :: StatusPositionSpeed
  ref1cnt :: int
  ref2cnt :: int
  ref3cnt :: int
  ref4cnt :: int
  ref5 :: StatusPositionSpeed
  diagnostic :: string
  undefined1 :: string
  handset1 :: int
  handset2 :: int
  ref6 :: StatusPositionSpeed
  ref7 :: StatusPositionSpeed
  ref8 :: StatusPositionSpeed
  undefined2 :: string

text \<open>
  \<^verbatim>\<open>StatusReport.from_buf\<close>, statement by statement; \<^verbatim>\<open>raw[114:]\<close> is
  \<open>drop 114 raw\<close>. The function never looks at the value of \<^verbatim>\<open>buf[0]\<close>.
\<close>

definition StatusReport_from_buf :: "byte list \<Rightarrow> error + StatusReport" where
  "StatusReport_from_buf buf =
     (let raw = hex buf in
      ebind (getitem buf 0) (\<lambda>b0.
      ebind (getitem buf 1) (\<lambda>b1.
      ebind (ValidFlags_from_buf (pyslice 4 8 raw)) (\<lambda>vf.
      ebind (StatusPositionSpeed_from_buf (pyslice 8 (8 + 8) raw)) (\<lambda>r1.
      ebind (StatusPositionSpeed_from_buf (pyslice 16 (16 + 8) raw)) (\<lambda>r2.
      ebind (StatusPositionSpeed_from_buf (pyslice 24 (24 + 8) raw)) (\<lambda>r3.
      ebind (StatusPositionSpeed_from_buf (pyslice 32 (32 + 8) raw)) (\<lambda>r4.
      ebind (int_base16 (pyslice 42 44 raw @ pyslice 40 42 raw)) (\<lambda>c1.
      ebind (int_base16 (pyslice 46 48 raw @ pyslice 44 46 raw)) (\<lambda>c2.
      ebind (int_base16 (pyslice 50 52 raw @ pyslice 48 50 raw)) (\<lambda>c3.
      ebind (int_base16 (pyslice 54 56 raw @ pyslice 52 54 raw)) (\<lambda>c4.
      ebind (StatusPositionSpeed_from_buf (pyslice 56 (56 + 8) raw)) (\<lambda>r5.
      ebind (int_base16 (pyslice 86 88 raw @ pyslice 84 86 raw)) (\<lambda>h1.
      ebind (int_base16 (pyslice 88 90 raw @ pyslice 86 88 raw)) (\<lambda>h2.
      ebind (StatusPositionSpeed_from_buf (pyslice 90 (90 + 8) raw)) (\<lambda>r6.
      ebind (StatusPositionSpeed_from_buf (pyslice 98 (98 + 8) raw)) (\<lambda>r7.
      ebind (StatusPositionSpeed_from_buf (pyslice 106 (106 + 8) raw)) (\<lambda>r8.
      Inr \<lparr>featureRaportID = uint b0, numberOfBytes = uint b1, validFlag = vf,
           ref1 = r1, ref2 = r2, ref3 = r3, ref4 = r4,
           ref1cnt = c1, ref2cnt = c2, ref3cnt = c3, ref4cnt = c4, ref5 = r5,
           diagnostic = pyslice 64 (64 + 16) raw, undefined1 = pyslice 80 84 raw,
           handset1 = h1, handset2 = h2, ref6 = r6, ref7 = r7, ref8 = r8,
           undefined2 = drop 114 raw\<rparr>))))))))))))))))))"

section \<open>The controller\<close>

subsection \<open>The transport\<close>

text \<open>
  The USB device is outside the program. A \<open>transport\<close> scripts what it answers:
  \<open>status_reply t k\<close> is what the \<open>k\<close>-th GET_STATUS control transfer of an operation
  reports as transferred together with the contents it leaves in the 64-byte data buffer,
  and \<open>move_reply t k\<close> is the byte count the \<open>k\<close>-th REQ_MOVE control transfer reports.
  \<^verbatim>\<open>_control_write_read\<close> returns the count and \<^verbatim>\<open>data_buffer[:transferred]\<close>.
\<close>

record transport =
  status_reply :: "nat \<Rightarrow> nat \<times> byte list"
  move_reply :: "nat \<Rightarrow> nat"

definition control_write_read :: "nat \<Rightarrow> byte list \<Rightarrow> nat \<times> byte list" where
  "control_write_read transferred data_buffer = (transferred, take transferred data_buffer)"

text \<open>
  \<^verbatim>\<open>_get_status_report\<close>: the request buffer (64 zero bytes with the command id in
  byte 0) goes to the device; the check of byte 0 is made on what comes back.
\<close>

definition get_status_report :: "transport \<Rightarrow> nat \<Rightarrow> error + byte list" where
  "get_status_report t k =
     (let (transferred, data_buffer) = status_reply t k;
          (amount, buf) = control_write_read transferred data_buffer
      in ebind (getitem buf 0) (\<lambda>b0.
         if b0 \<noteq> CMD_STATUS_REPORT then Inl ProtocolMismatch else Inr buf))"

text \<open>
  \<^verbatim>\<open>_move\<close>: \<open>move_buffer\<close> is the command buffer it fills, with the two
  \<^verbatim>\<open>int(..., 16)\<close> calls and the bytearray assignments in the order of the source;
  \<open>move_priv\<close> sends it and compares the transferred count with 64.
\<close>

definition move_buffer :: "int \<Rightarrow> error + byte list" where
  "move_buffer height =
     (let hHex = format_04x height in
      ebind (int_base16 (drop 2 hHex)) (\<lambda>hHigh.
      ebind (int_base16 (pyslice 0 2 hHex)) (\<lambda>hLow.
      ebind (to_byte hHigh) (\<lambda>h.
      ebind (to_byte hLow) (\<lambda>l.
      Inr ([CMD_CONTROL_CBC, h, l, h, l, h, l, h, l]
           @ replicate (LEN_STATUS_REPORT - 9) 0))))))"

definition move_priv :: "transport \<Rightarrow> nat \<Rightarrow> int \<Rightarrow> error + bool" where
  "move_priv t k height =
     ebind (move_buffer height) (\<lambda>buf.
       let (amount, buf') = control_write_read (move_reply t k) buf
       in Inr (amount = LEN_STATUS_REPORT))"

subsection \<open>\<^verbatim>\<open>_is_status_report_not_ready\<close>\<close>

fun not_ready_loop :: "byte list \<Rightarrow> nat list \<Rightarrow> error + bool" where
  "not_ready_loop buf [] = Inr True"
| "not_ready_loop buf (i # rest) =
     ebind (getitem buf i) (\<lambda>b. if b \<noteq> 0 then Inr False else not_ready_loop buf rest)"

definition is_status_report_not_ready :: "byte list \<Rightarrow> error + bool" where
  "is_status_report_not_ready buf =
     ebind (getitem buf 0) (\<lambda>b0.
     if b0 \<noteq> CMD_STATUS_REPORT then Inr False
     else ebind (getitem buf 1) (\<lambda>b1.
     if b1 \<noteq> NRB_STATUS_REPORT then Inr False
     else not_ready_loop buf [2..<LEN_STATUS_REPORT - 5]))"

subsection \<open>\<^verbatim>\<open>move\<close> and \<^verbatim>\<open>get_height\<close>\<close>

definition max_retry :: int where "max_retry = 3"
definition epsilon :: int where "epsilon = 13"

text \<open>The update of \<^verbatim>\<open>retry_count\<close> in the loop body, from the decoded report.\<close>

definition update_retry :: "int \<Rightarrow> int \<Rightarrow> StatusReport \<Rightarrow> int" where
  "update_retry retry_count prev_height r =
     (let distance = ref1cnt r - pos (ref1 r);
          delta = \<bar>prev_height - pos (ref1 r)\<bar>
      in if \<bar>distance\<bar> \<le> epsilon \<or> delta \<le> epsilon \<or> prev_height = pos (ref1 r)
         then retry_count - 1 else max_retry)"

text \<open>
  The \<^verbatim>\<open>while True\<close> loop may run forever, so it takes fuel: \<open>None\<close> means that
  the loop is still running after \<open>fuel\<close> iterations. \<open>k\<close> counts the iterations done;
  iteration \<open>k\<close> sends the \<open>k\<close>-th move command and makes the \<open>k\<close>-th status request.
  The result of \<^verbatim>\<open>self._move(target)\<close> is not used. A finished loop yields the
  value \<^verbatim>\<open>move\<close> returns and the number of iterations it took.
\<close>

fun move_loop :: "nat \<Rightarrow> transport \<Rightarrow> int \<Rightarrow> nat \<Rightarrow> int \<Rightarrow> int \<Rightarrow> (error + bool \<times> nat) option" where
  "move_loop 0 t target k retry_count prev_height = None"
| "move_loop (Suc fuel) t target k retry_count prev_height =
     (case move_priv t k target of Inl e \<Rightarrow> Some (Inl e) | Inr sent \<Rightarrow>
      case get_status_report t k of Inl e \<Rightarrow> Some (Inl e) | Inr buf \<Rightarrow>
      case StatusReport_from_buf buf of Inl e \<Rightarrow> Some (Inl e) | Inr r \<Rightarrow>
        let retry_count' = update_retry retry_count prev_height r in
        if retry_count' = 0 then Some (Inr (\<bar>pos (ref1 r) - target\<bar> \<le> epsilon, Suc k))
        else move_loop fuel t target (Suc k) retry_count' (pos (ref1 r)))"

declare move_loop.simps(2) [simp del]

definition move :: "nat \<Rightarrow> transport \<Rightarrow> int \<Rightarrow> (error + bool \<times> nat) option" where
  "move fuel t target = move_loop fuel t target 0 max_retry 0"

text \<open>
  \<^verbatim>\<open>get_height\<close>: one status request, one decode; the pair of the ref1 position and
  of \<^verbatim>\<open>r.ref1.pos/98.0\<close>, a float division.
\<close>

definition get_height :: "transport \<Rightarrow> error + int \<times> rat" where
  "get_height t =
     ebind (get_status_report t 0) (\<lambda>buf.
     ebind (StatusReport_from_buf buf) (\<lambda>r.
     ebind (truediv_98 (pos (ref1 r))) (\<lambda>cm.
     Inr (pos (ref1 r), cm))))"

section \<open>Closed forms of the decoder\<close>

text \<open>
  What the string manipulations of the decoder compute, written on the bytes themselves.
  The lemmas below prove that the decoder agrees with them. \<open>bits_be k n\<close> and
  \<open>nibbles_be k n\<close> are the \<open>k\<close> lowest binary and hexadecimal digits of \<open>n\<close>, most
  significant first.
\<close>

fun bits_be :: "nat \<Rightarrow> nat \<Rightarrow> bool list" where
  "bits_be 0 n = []"
| "bits_be (Suc k) n = bits_be k (n div 2) @ [odd n]"

fun nibbles_be :: "nat \<Rightarrow> nat \<Rightarrow> nat list" where
  "nibbles_be 0 n = []"
| "nibbles_be (Suc k) n = nibbles_be k (n div 16) @ [n mod 16]"

definition bool_char :: "bool \<Rightarrow> char" where
  "bool_char b = (if b then CHR ''1'' else CHR ''0'')"

text \<open>
  A status byte: the four flags are its bits 7 to 4, \<open>unknown\<close> is its low nibble.
\<close>

definition Status_closed :: "byte \<Rightarrow> Status" where
  "Status_closed c = \<lparr>positionLost = bit c 7, antiColision = bit c 6, overloadDown = bit c 5,
                      overloadUp = bit c 4, Status.unknown = uint c mod 16\<rparr>"

text \<open>
  A sample of four bytes \<open>a b c d\<close>: the position is the 16-bit value with \<open>b\<close> as
  high byte and \<open>a\<close> as low byte.
\<close>

definition StatusPositionSpeed_closed :: "byte \<Rightarrow> byte \<Rightarrow> byte \<Rightarrow> byte \<Rightarrow> StatusPositionSpeed" where
  "StatusPositionSpeed_closed a b c d =
     \<lparr>pos = 256 * uint b + uint a, status = Status_closed c, speed = uint d\<rparr>"

text \<open>The sixteen flags of a 16-bit word, from bit 15 down to bit 0.\<close>

definition ValidFlags_closed :: "16 word \<Rightarrow> ValidFlags" where
  "ValidFlags_closed w =
     \<lparr>ID00_Ref1_pos_stat_speed = bit w 15, ID01_Ref2_pos_stat_speed = bit w 14,
      ID02_Ref3_pos_stat_speed = bit w 13, ID03_Ref4_pos_stat_speed = bit w 12,
      ID10_Ref1_controlInput = bit w 11, ID11_Ref2_controlInput = bit w 10,
      ID12_Ref3_controlInput = bit w 9, ID13_Ref4_controlInput = bit w 8,
      ID04_Ref5_pos_stat_speed = bit w 7, ID28_Diagnostic = bit w 6,
      ID05_Ref6_pos_stat_speed = bit w 5, ID37_Handset1command = bit w 4,
      ID38_Handset2command = bit w 3, ID06_Ref7_pos_stat_speed = bit w 2,
      ID07_Ref8_pos_stat_speed = bit w 1, ValidFlags.unknown = bit w 0\<rparr>"

text \<open>
  The report that \<open>StatusReport_from_buf\<close> builds from a 64-byte buffer, with the byte
  offsets the slices of the source select.
\<close>

definition StatusReport_closed :: "byte list \<Rightarrow> StatusReport" where
  "StatusReport_closed buf =
     \<lparr>featureRaportID = uint (buf ! 0), numberOfBytes = uint (buf ! 1),
      validFlag = ValidFlags_closed (word_cat (buf ! 2) (buf ! 3)),
      ref1 = StatusPositionSpeed_closed (buf ! 4) (buf ! 5) (buf ! 6) (buf ! 7),
      ref2 = StatusPositionSpeed_closed (buf ! 8) (buf ! 9) (buf ! 10) (buf ! 11),
      ref3 = StatusPositionSpeed_closed (buf ! 12) (buf ! 13) (buf ! 14) (buf ! 15),
      ref4 = StatusPositionSpeed_closed (buf ! 16) (buf ! 17) (buf ! 18) (buf ! 19),
      ref1cnt = 256 * uint (buf ! 21) + uint (buf ! 20),
      ref2cnt = 256 * uint (buf ! 23) + uint (buf ! 22),
      ref3cnt = 256 * uint (buf ! 25) + uint (buf ! 24),
      ref4cnt = 256 * uint (buf ! 27) + uint (buf ! 26),
      ref5 = StatusPositionSpeed_closed (buf ! 28) (buf ! 29) (buf ! 30) (buf ! 31),
      diagnostic = hex (pyslice 32 40 buf), undefined1 = hex (pyslice 40 42 buf),
      handset1 = 256 * uint (buf ! 43) + uint (buf ! 42),
      handset2 = 256 * uint (buf ! 44) + uint (buf ! 43),
      ref6 = StatusPositionSpeed_closed (buf ! 45) (buf ! 46) (buf ! 47) (buf ! 48),
      ref7 = StatusPositionSpeed_closed (buf ! 49) (buf ! 50) (buf ! 51) (buf ! 52),
      ref8 = StatusPositionSpeed_closed (buf ! 53) (buf ! 54) (buf ! 55) (buf ! 56),
      undefined2 = hex (drop 57 buf)\<rparr>"

section \<open>Concrete reports and transports\<close>

text \<open>
  \<open>report_buf\<close> is a 64-byte status report with command id 4 and declared length 56,
  the ref1 position in bytes 4 and 5, ref1cnt in bytes 20 and 21, and zeros elsewhere.
\<close>

definition report_buf :: "byte \<Rightarrow> byte \<Rightarrow> byte \<Rightarrow> byte \<Rightarrow> byte list" where
  "report_buf pos_lo pos_hi cnt_lo cnt_hi =
     (replicate 64 0)[0 := 4, 1 := 56, 4 := pos_lo, 5 := pos_hi, 20 := cnt_lo, 21 := cnt_hi]"

definition const_reply :: "byte list \<Rightarrow> nat \<Rightarrow> nat \<times> byte list" where
  "const_reply buf k = (64, buf)"

definition const_amount :: "nat \<Rightarrow> nat \<Rightarrow> nat" where
  "const_amount n k = n"

text \<open>Position 1000 (\<open>0x03e8\<close>) in every poll, the device counter at 0.\<close>

definition steady_buf :: "byte list" where
  "steady_buf = report_buf 0xE8 0x03 0 0"

definition steady_transport :: transport where
  "steady_transport = \<lparr>status_reply = const_reply steady_buf, move_reply = const_amount 64\<rparr>"

text \<open>Position 1000 in every poll, the device counter at 1000 as well.\<close>

definition settled_buf :: "byte list" where
  "settled_buf = report_buf 0xE8 0x03 0xE8 0x03"

definition settled_transport :: transport where
  "settled_transport = \<lparr>status_reply = const_reply settled_buf, move_reply = const_amount 64\<rparr>"

text \<open>The same polls, but every move command reports that nothing was transferred.\<close>

definition unanswered_transport :: transport where
  "unanswered_transport = \<lparr>status_reply = const_reply settled_buf, move_reply = const_amount 0\<rparr>"

text \<open>The position alternates between 1000 and 2000 (\<open>0x07d0\<close>), the counter stays 0.\<close>

definition moving_buf :: "byte list" where
  "moving_buf = report_buf 0xD0 0x07 0 0"

definition oscillating_reply :: "nat \<Rightarrow> nat \<times> byte list" where
  "oscillating_reply k = (64, if even k then steady_buf else moving_buf)"

definition oscillating_transport :: transport where
  "oscillating_transport = \<lparr>status_reply = oscillating_reply, move_reply = const_amount 64\<rparr>"

definition oscillating_report :: "nat \<Rightarrow> StatusReport" where
  "oscillating_report k = StatusReport_closed (if even k then steady_buf else moving_buf)"

text \<open>Position 4900 (\<open>0x1324\<close>).\<close>

definition height_buf :: "byte list" where
  "height_buf = report_buf 0x24 0x13 0 0"

definition height_transport :: transport where
  "height_transport = \<lparr>status_reply = const_reply height_buf, move_reply = const_amount 64\<rparr>"

text \<open>A buffer of 64 zero bytes: its byte 0 is not the status command id.\<close>

definition zero_buf :: "byte list" where
  "zero_buf = replicate 64 0"

definition zero_transport :: transport where
  "zero_transport = \<lparr>status_reply = const_reply zero_buf, move_reply = const_amount 64\<rparr>"

text \<open>A report whose only non-zero payload byte is byte 45.\<close>

definition shifted_buf :: "byte list" where
  "shifted_buf = (replicate 64 0)[0 := 4, 1 := 56, 45 := 1]"

text \<open>A not-ready report and a buffer of 64 bytes \<open>0xff\<close>.\<close>

definition not_ready_buf :: "byte list" where
  "not_ready_buf = (replicate 64 0)[0 := 4, 1 := 56]"

definition full_buf :: "byte list" where
  "full_buf = replicate 64 255"

section \<open>Lemmas on the Python primitives\<close>

lemma ebind_Inr [simp]: "ebind (Inr x) f = f x"
  by (simp add: ebind_def)

lemma ebind_Inl [simp]: "ebind (Inl e) f = Inl e"
  by (simp add: ebind_def)

lemma hexdigit_table:
  "list_all (\<lambda>n. hexval (hexdigit n) = Some n \<and> hexdigit n \<noteq> CHR ''-'') [0..<16]"
  by code_simp

lemma hexdigit_facts:
  assumes "n < 16"
  shows "hexval (hexdigit n) = Some n \<and> hexdigit n \<noteq> CHR ''-''"
proof -
  have "n \<in> set [0..<16]"
    using assms by (simp only: set_upt atLeastLessThan_iff) simp
  with hexdigit_table show ?thesis
    unfolding list_all_iff by blast
qed

lemma hexval_hexdigit: "n < 16 \<Longrightarrow> hexval (hexdigit n) = Some n"
  by (simp add: hexdigit_facts)

lemma hexdigit_no_sign: "n < 16 \<Longrightarrow> hexdigit n \<noteq> CHR ''-''"
  by (simp add: hexdigit_facts)

lemma unsigned16_digits:
  "xs \<noteq> [] \<Longrightarrow> digits16 xs 0 = Some n \<Longrightarrow> unsigned16 xs = Inr (int n)"
  by (simp add: unsigned16_def)

lemma int_base16_digits:
  "digits16 (hexdigit a # xs) 0 = Some n \<Longrightarrow> a < 16 \<Longrightarrow>
   int_base16 (hexdigit a # xs) = Inr (int n)"
  by (simp add: int_base16_def hexdigit_no_sign unsigned16_digits)

lemma int_base16_digit: "n < 16 \<Longrightarrow> int_base16 [hexdigit n] = Inr (int n)"
  by (rule int_base16_digits) (simp_all add: hexval_hexdigit)

lemma int_base16_two:
  "a < 16 \<Longrightarrow> b < 16 \<Longrightarrow> int_base16 [hexdigit a, hexdigit b] = Inr (int (16 * a + b))"
  by (rule int_base16_digits) (simp_all add: hexval_hexdigit)

lemma int_base16_four:
  "a < 16 \<Longrightarrow> b < 16 \<Longrightarrow> c < 16 \<Longrightarrow> d < 16 \<Longrightarrow>
   int_base16 [hexdigit a, hexdigit b, hexdigit c, hexdigit d]
     = Inr (int (16 * (16 * (16 * a + b) + c) + d))"
  by (rule int_base16_digits) (simp_all add: hexval_hexdigit)

lemma byte_hi: "unat (b::byte) div 16 < 16"
  using unsigned_less [of b, where ?'a = nat] by simp

lemma byte_digits: "16 * (unat (b::byte) div 16) + unat b mod 16 = unat b"
  by simp

lemma int_base16_hex_byte: "int_base16 (hex_byte b) = Inr (uint b)"
proof -
  have "int_base16 [hexdigit (unat b div 16), hexdigit (unat b mod 16)]
        = Inr (int (16 * (unat b div 16) + unat b mod 16))"
    by (rule int_base16_two) (simp_all add: byte_hi)
  then show ?thesis
    by (simp only: byte_digits hex_byte_def uint_nat)
qed

lemma int_base16_hex_pair:
  "int_base16 (hex_byte b @ hex_byte a) = Inr (256 * uint b + uint a)"
proof -
  have "16 * (16 * (16 * (unat b div 16) + unat b mod 16) + unat a div 16) + unat a mod 16
      = 256 * (16 * (unat b div 16) + unat b mod 16) + (16 * (unat a div 16) + unat a mod 16)"
    by (simp only: distrib_left mult.assoc [symmetric] add.assoc)
  then have e: "int (16 * (16 * (16 * (unat b div 16) + unat b mod 16) + unat a div 16) + unat a mod 16)
      = 256 * uint b + uint a"
    by (simp only: byte_digits uint_nat)
  have "int_base16 [hexdigit (unat b div 16), hexdigit (unat b mod 16),
                    hexdigit (unat a div 16), hexdigit (unat a mod 16)]
        = Inr (int (16 * (16 * (16 * (unat b div 16) + unat b mod 16) + unat a div 16) + unat a mod 16))"
    by (rule int_base16_four) (simp_all add: byte_hi)
  then show ?thesis by (simp only: e hex_byte_def append.simps)
qed

subsection \<open>Floats: integers below \<open>2 ^ 53\<close> convert exactly\<close>

lemma log2_floor_le: "0 < n \<Longrightarrow> 2 ^ log2_floor n \<le> n"
proof (induction n rule: log2_floor.induct)
  case (1 n)
  show ?case
  proof (cases "n < 2")
    case True
    with 1 show ?thesis by (simp add: log2_floor.simps [of n])
  next
    case False
    then have "0 < n div 2" by simp
    with 1 False have "2 ^ log2_floor (n div 2) \<le> n div 2" by simp
    then have "2 * 2 ^ log2_floor (n div 2) \<le> 2 * (n div 2)" by simp
    also have "\<dots> \<le> n" by simp
    finally show ?thesis using False by (simp add: log2_floor.simps [of n])
  qed
qed

lemma log2_floor_less: "n < 2 ^ Suc b \<Longrightarrow> log2_floor n \<le> b"
proof (induction n arbitrary: b rule: log2_floor.induct)
  case (1 n)
  show ?case
  proof (cases "n < 2")
    case True
    then show ?thesis by (simp add: log2_floor.simps [of n])
  next
    case False
    with 1(2) obtain c where c: "b = Suc c"
      by (cases b) auto
    from 1(2) have "n div 2 < 2 ^ Suc c" by (simp add: c)
    with 1(1) False have "log2_floor (n div 2) \<le> c" by simp
    then show ?thesis using False by (simp add: log2_floor.simps [of n] c)
  qed
qed

lemma round_half_even_int: "round_half_even (of_int k) = k"
  by (simp add: round_half_even_def)

lemma round_double_of_int:
  assumes "0 \<le> n" and "n < 2 ^ 53"
  shows "round_double (of_int n) = of_int n"
proof (cases "n = 0")
  case True
  then show ?thesis by (simp add: round_double_def)
next
  case False
  with assms have pos: "0 < n" by simp
  define l where "l = log2_floor (nat n)"
  have "nat n < 2 ^ Suc 52" using assms by (simp add: nat_less_iff)
  then have l52: "l \<le> 52" unfolding l_def by (rule log2_floor_less)
  have "2 ^ l \<le> nat n" unfolding l_def using pos by (intro log2_floor_le) simp
  then have "int (2 ^ l) \<le> int (nat n)"
    by (simp only: of_nat_le_iff)
  then have "(2::int) ^ l \<le> n"
    using pos by simp
  then have "(of_int ((2::int) ^ l) :: rat) \<le> of_int n"
    by (simp only: of_int_le_iff)
  then have le: "(2::rat) ^ l \<le> of_int n"
    by simp
  have q: "quotient_of (of_int n) = (n, 1)"
    by (simp add: quotient_of_int)
  have one: "log2_floor (Suc 0) = 0"
    by (simp add: log2_floor.simps [of "Suc 0"])
  have b: "binade (of_int n) = int l"
    using le by (simp add: binade_def q one l_def [symmetric] power_int_def Let_def)
  define j where "j = 52 - l"
  have e1: "52 - int l = int j" and e2: "int l - 52 = - int j"
    using l52 by (simp_all add: j_def)
  have "(of_int n :: rat) * 2 ^ j = of_int (n * 2 ^ j)"
    by simp
  then have m: "round_half_even (of_int n * 2 ^ j) = n * 2 ^ j"
    by (simp only: round_half_even_int)
  have "round_double (of_int n) = of_int (n * 2 ^ j) * 2 powi (- int j)"
    using pos by (simp add: round_double_def Let_def b e1 e2 m)
  also have "\<dots> = of_int n"
    by (simp add: power_int_def field_simps)
  finally show ?thesis .
qed

lemma float_of_int_exact:
  assumes "0 \<le> n" and "n < 2 ^ 53"
  shows "float_of_int n = Inr (of_int n)"
proof -
  have "(of_int n :: rat) < of_int (2 ^ 53)"
    using assms(2) by (simp only: of_int_less_iff)
  then have "(of_int n :: rat) < 2 ^ 53"
    by simp
  moreover have "(2::rat) ^ 53 \<le> 2 ^ 1024"
    by (rule power_increasing) simp_all
  ultimately have "(of_int n :: rat) < 2 ^ 1024"
    by (rule less_le_trans)
  moreover have "(0::rat) \<le> of_int n"
    using assms(1) by simp
  ultimately have "\<not> 2 ^ 1024 \<le> \<bar>(of_int n :: rat)\<bar>"
    by (simp only: abs_of_nonneg not_le)
  then show ?thesis
    by (simp only: float_of_int_def Let_def round_double_of_int [OF assms] if_False)
qed

lemma truediv_98_exact:
  assumes "0 \<le> n" and "n < 2 ^ 53"
  shows "truediv_98 n = Inr (round_double (of_int n / 98))"
  by (simp only: truediv_98_def float_of_int_exact [OF assms] ebind_Inr)

lemma round_double_1000: "round_double (500 / 49) = 2872193639904653 / 281474976710656"
  by code_simp

text \<open>The smallest non-zero quotient, \<^verbatim>\<open>1/98.0\<close>.\<close>

lemma round_double_smallest: "round_double (1 / 98) = 5882252574524729 / 576460752303423488"
  by code_simp

subsection \<open>Binary digits\<close>

lemma bitchar_mod2: "bitchar (n mod 2) = bool_char (odd n)"
  by (simp add: bitchar_def bool_char_def odd_iff_mod_2_eq_one)

lemma bitchar_small: "n < 2 \<Longrightarrow> bitchar n = bool_char (odd n)"
  using bitchar_mod2 [of n] by simp

lemma bits_be_zero: "bits_be k 0 = replicate k False"
  by (induction k) (simp_all add: replicate_append_same)

lemma pad_bin_digits:
  "n < 2 ^ Suc k \<Longrightarrow>
   replicate (Suc k - length (bin_digits n)) CHR ''0'' @ bin_digits n
     = map bool_char (bits_be (Suc k) n)"
proof (induction k arbitrary: n)
  case 0
  then show ?case
    by (simp add: bin_digits.simps [of n] bitchar_small)
next
  case (Suc k)
  show ?case
  proof (cases "n < 2")
    case True
    then have "n div 2 = 0" by simp
    with True show ?thesis
      by (simp add: bin_digits.simps [of n] bitchar_small bits_be_zero bool_char_def
          replicate_append_same)
  next
    case False
    from Suc.prems have "n div 2 < 2 ^ Suc k" by simp
    from Suc.IH [OF this] False show ?thesis
      by (simp add: bin_digits.simps [of n] bitchar_mod2 Suc_diff_le)
  qed
qed

lemma bin_digits_hd: "0 < n \<Longrightarrow> bin_digits n \<noteq> [] \<and> hd (bin_digits n) = CHR ''1''"
proof (induction n rule: bin_digits.induct)
  case (1 n)
  show ?case
  proof (cases "n < 2")
    case True
    with 1 have "n = 1" by simp
    then show ?thesis by (simp add: bin_digits.simps [of "Suc 0"] bitchar_def)
  next
    case False
    then have "0 < n div 2" by simp
    with 1 False show ?thesis
      by (simp add: bin_digits.simps [of n])
  qed
qed

lemma bin_digits_zero: "bin_digits 0 = ''0''"
  by (simp add: bin_digits.simps [of 0] bitchar_def)

lemma bin_nat: "bin (int n) = ''0b'' @ bin_digits n"
  by (simp add: bin_def)

lemma zfill_bin:
  assumes "n < 2 ^ Suc k"
  shows "zfill (Suc k) (drop 2 (bin (int n))) = map bool_char (bits_be (Suc k) n)"
proof -
  have "bin_digits n \<noteq> [] \<and> hd (bin_digits n) \<noteq> CHR ''+'' \<and> hd (bin_digits n) \<noteq> CHR ''-''"
  proof (cases "n = 0")
    case True
    then show ?thesis by (simp add: bin_digits_zero)
  next
    case False
    then show ?thesis using bin_digits_hd [of n] by simp
  qed
  then show ?thesis
    using pad_bin_digits [OF assms] by (simp add: zfill_def bin_nat)
qed

lemma format_bin:
  assumes "n < 2 ^ 8"
  shows "format_0r8s (lstrip ''0b'' (bin (int n))) = map bool_char (bits_be 8 n)"
proof (cases "n = 0")
  case True
  have "bin 0 = ''0b0''"
    using bin_nat [of 0] by (simp add: bin_digits_zero)
  with True show ?thesis
    by (simp add: format_0r8s_def lstrip_def bits_be_zero eval_nat_numeral bool_char_def)
next
  case False
  then have h: "bin_digits n \<noteq> [] \<and> hd (bin_digits n) = CHR ''1''"
    using bin_digits_hd [of n] by simp
  then have "lstrip ''0b'' (bin (int n)) = bin_digits n"
    by (cases "bin_digits n") (simp_all add: lstrip_def bin_nat)
  moreover have "n < 2 ^ Suc 7" using assms by simp
  ultimately show ?thesis
    using pad_bin_digits [of n 7] by (simp add: format_0r8s_def eval_nat_numeral)
qed

lemma bits_be_bit: "bits_be k n = map (bit n) (rev [0..<k])"
proof (induction k arbitrary: n)
  case 0
  show ?case by simp
next
  case (Suc k)
  have "[0..<Suc k] = 0 # map Suc [0..<k]"
    by (simp add: upt_conv_Cons map_Suc_upt del: upt_Suc)
  then have "map (bit n) (rev [0..<Suc k]) = map (bit n \<circ> Suc) (rev [0..<k]) @ [bit n 0]"
    by (simp only: rev.simps rev_map map_append map_map list.map)
  moreover have "bit n \<circ> Suc = bit (n div 2)"
    by (simp add: fun_eq_iff bit_Suc)
  ultimately show ?case
    by (simp add: Suc.IH bit_0 del: upt_Suc)
qed

lemma rev_upt_8: "rev [0..<8] = [7, 6, 5, 4, 3, 2, 1, 0::nat]"
  by code_simp

lemma rev_upt_16: "rev [0..<16] = [15, 14, 13, 12, 11, 10, 9, 8, 7, 6, 5, 4, 3, 2, 1, 0::nat]"
  by code_simp

lemma bits_be_8: "bits_be 8 n = [bit n 7, bit n 6, bit n 5, bit n 4, bit n 3, bit n 2, bit n 1, bit n 0]"
  by (simp only: bits_be_bit rev_upt_8 list.map)

lemma bits_be_16:
  "bits_be 16 n = [bit n 15, bit n 14, bit n 13, bit n 12, bit n 11, bit n 10, bit n 9, bit n 8,
                   bit n 7, bit n 6, bit n 5, bit n 4, bit n 3, bit n 2, bit n 1, bit n 0]"
  by (simp only: bits_be_bit rev_upt_16 list.map)

lemma bool_char_eq [simp]: "(bool_char b = CHR ''1'') = b"
  by (simp add: bool_char_def)

lemma bit_unat_byte: "bit (unat (c::byte)) k = bit c k"
  by (simp add: bit_unsigned_iff)

lemma bitlist_byte:
  "format_0r8s (lstrip ''0b'' (bin (uint (c::byte))))
      = map bool_char [bit c 7, bit c 6, bit c 5, bit c 4, bit c 3, bit c 2, bit c 1, bit c 0]"
proof -
  have lt: "unat c < 2 ^ 8"
    using unsigned_less [of c, where ?'a = nat] by simp
  show ?thesis
    using format_bin [OF lt] by (simp only: bits_be_8 bit_unat_byte uint_nat)
qed

section \<open>The decoder computes the closed forms\<close>

subsection \<open>Status bytes, samples and flag words\<close>

lemma Status_loop_bits:
  "Status_loop [0, 1, 2, 3] (map bool_char [b7, b6, b5, b4, b3, b2, b1, b0]) Status_new
     = Inr \<lparr>positionLost = b7, antiColision = b6, overloadDown = b5, overloadUp = b4,
            Status.unknown = 4\<rparr>"
  by (simp add: getitem_def Status_setattr_def Status_new_def)

lemma low_nibble_int: "int (unat (c::byte) mod 16) = uint c mod 16"
  by (simp only: uint_nat of_nat_mod of_nat_numeral)

lemma low_digit: "int_base16 (drop 1 (hex_byte c)) = Inr (uint c mod 16)"
proof -
  have "int_base16 [hexdigit (unat c mod 16)] = Inr (int (unat c mod 16))"
    by (rule int_base16_digit) simp
  then show ?thesis
    by (simp add: hex_byte_def low_nibble_int)
qed

lemma Status_from_buf_hex_byte: "Status_from_buf (hex_byte c) = Inr (Status_closed c)"
  unfolding Status_from_buf_def int_base16_hex_byte ebind_Inr bitlist_byte Status_loop_bits
    low_digit Status_closed_def
  by simp

lemma sample_slices:
  "pyslice 2 4 (hex_byte a @ hex_byte b @ hex_byte c @ hex_byte d) = hex_byte b"
  "pyslice 0 2 (hex_byte a @ hex_byte b @ hex_byte c @ hex_byte d) = hex_byte a"
  "pyslice 4 6 (hex_byte a @ hex_byte b @ hex_byte c @ hex_byte d) = hex_byte c"
  "pyslice 6 8 (hex_byte a @ hex_byte b @ hex_byte c @ hex_byte d) = hex_byte d"
  by (simp_all add: pyslice_def hex_byte_def)

lemma StatusPositionSpeed_from_buf_hex:
  "StatusPositionSpeed_from_buf (hex_byte a @ hex_byte b @ hex_byte c @ hex_byte d)
     = Inr (StatusPositionSpeed_closed a b c d)"
  unfolding StatusPositionSpeed_from_buf_def sample_slices int_base16_hex_pair
    int_base16_hex_byte Status_from_buf_hex_byte ebind_Inr StatusPositionSpeed_closed_def
  by (rule refl)

lemma ValidFlags_loop_bits:
  "ValidFlags_loop 0
     (map bool_char [b15, b14, b13, b12, b11, b10, b9, b8, b7, b6, b5, b4, b3, b2, b1, b0])
     ValidFlags_new
   = Inr \<lparr>ID00_Ref1_pos_stat_speed = b15, ID01_Ref2_pos_stat_speed = b14,
      ID02_Ref3_pos_stat_speed = b13, ID03_Ref4_pos_stat_speed = b12,
      ID10_Ref1_controlInput = b11, ID11_Ref2_controlInput = b10,
      ID12_Ref3_controlInput = b9, ID13_Ref4_controlInput = b8,
      ID04_Ref5_pos_stat_speed = b7, ID28_Diagnostic = b6,
      ID05_Ref6_pos_stat_speed = b5, ID37_Handset1command = b4,
      ID38_Handset2command = b3, ID06_Ref7_pos_stat_speed = b2,
      ID07_Ref8_pos_stat_speed = b1, ValidFlags.unknown = b0\<rparr>"
  by (simp add: ValidFlags_setattr_def ValidFlags_new_def)

lemma byte_lt: "unat (b::byte) < 256"
  using unsigned_less [of b, where ?'a = nat] by simp

lemma word_cat_bytes: "(word_cat (hi::byte) (lo::byte) :: 16 word) = of_nat (256 * unat hi + unat lo)"
  by (simp add: word_cat_eq push_bit_eq_mult)

lemma unat_word_cat_bytes: "unat (word_cat (hi::byte) (lo::byte) :: 16 word) = 256 * unat hi + unat lo"
proof -
  have "256 * unat hi + unat lo < 2 ^ 16"
    using byte_lt [of hi] byte_lt [of lo] by simp
  then have "(256 * unat hi + unat lo) mod 2 ^ LENGTH(16) = 256 * unat hi + unat lo"
    by simp
  then show ?thesis
    by (simp only: word_cat_bytes unat_of_nat)
qed

lemma ValidFlags_from_buf_hex:
  "ValidFlags_from_buf (hex_byte hi @ hex_byte lo) = Inr (ValidFlags_closed (word_cat hi lo))"
proof -
  define n where "n = 256 * unat hi + unat lo"
  have n: "unat (word_cat hi lo :: 16 word) = n"
    by (simp only: unat_word_cat_bytes n_def)
  have lt: "n < 2 ^ Suc 15"
    using byte_lt [of hi] byte_lt [of lo] by (simp add: n_def)
  have i: "256 * uint hi + uint lo = int n"
    by (simp only: n_def uint_nat of_nat_add of_nat_mult of_nat_numeral)
  have "zfill 16 (drop 2 (bin (int n))) = map bool_char (bits_be 16 n)"
    using zfill_bin [OF lt] by simp
  then have z: "zfill 16 (drop 2 (bin (int n)))
      = map bool_char [bit n 15, bit n 14, bit n 13, bit n 12, bit n 11, bit n 10, bit n 9,
          bit n 8, bit n 7, bit n 6, bit n 5, bit n 4, bit n 3, bit n 2, bit n 1, bit n 0]"
    by (simp only: bits_be_16)
  have b: "bit n k = bit (word_cat hi lo :: 16 word) k" for k
    by (simp only: n [symmetric]) (simp add: bit_unsigned_iff)
  show ?thesis
    unfolding ValidFlags_from_buf_def int_base16_hex_pair ebind_Inr i z ValidFlags_loop_bits
      ValidFlags_closed_def b
    by (rule refl)
qed

subsection \<open>Slices of the hexadecimal string\<close>

lemma hex_Nil [simp]: "hex [] = []"
  by (simp add: hex_def)

lemma hex_Cons [simp]: "hex (b # bs) = hex_byte b @ hex bs"
  by (simp add: hex_def)

lemma length_hex_byte [simp]: "length (hex_byte b) = 2"
  by (simp add: hex_byte_def)

lemma length_hex [simp]: "length (hex bs) = 2 * length bs"
  by (induction bs) simp_all

lemma drop_hex: "drop (2 * n) (hex bs) = hex (drop n bs)"
proof (induction bs arbitrary: n)
  case Nil
  show ?case by simp
next
  case (Cons b bs)
  show ?case
  proof (cases n)
    case 0
    then show ?thesis by simp
  next
    case (Suc m)
    then show ?thesis using Cons.IH [of m] by simp
  qed
qed

lemma take_hex: "take (2 * n) (hex bs) = hex (take n bs)"
proof (induction bs arbitrary: n)
  case Nil
  show ?case by simp
next
  case (Cons b bs)
  show ?case
  proof (cases n)
    case 0
    then show ?thesis by simp
  next
    case (Suc m)
    then show ?thesis using Cons.IH [of m] by simp
  qed
qed

lemma pyslice_hex: "pyslice (2 * a) (2 * a + 2 * k) (hex bs) = hex (take k (drop a bs))"
  using take_hex [of k "drop a bs"] by (simp add: pyslice_def drop_hex)

lemma take_drop_1: "a < length bs \<Longrightarrow> take 1 (drop a bs) = [bs ! a]"
  by (simp add: take_Suc_conv_app_nth)

lemma take_drop_2: "a + 1 < length bs \<Longrightarrow> take 2 (drop a bs) = [bs ! a, bs ! (a + 1)]"
  by (simp add: numeral_2_eq_2 take_Suc_conv_app_nth)

lemma take_drop_4:
  "a + 3 < length bs \<Longrightarrow>
   take 4 (drop a bs) = [bs ! a, bs ! (a + 1), bs ! (a + 2), bs ! (a + 3)]"
  by (simp add: eval_nat_numeral take_Suc_conv_app_nth)

lemma hex_slice_1:
  assumes "a < length bs"
  shows "pyslice (2 * a) (2 * a + 2) (hex bs) = hex_byte (bs ! a)"
proof -
  have "pyslice (2 * a) (2 * a + 2 * 1) (hex bs) = hex [bs ! a]"
    by (simp only: pyslice_hex take_drop_1 [OF assms])
  then show ?thesis by simp
qed

lemma hex_slice_4:
  assumes "a + 3 < length bs"
  shows "pyslice (2 * a) (2 * a + 8) (hex bs)
     = hex_byte (bs ! a) @ hex_byte (bs ! (a + 1)) @ hex_byte (bs ! (a + 2)) @ hex_byte (bs ! (a + 3))"
proof -
  have "pyslice (2 * a) (2 * a + 2 * 4) (hex bs) = hex [bs ! a, bs ! (a + 1), bs ! (a + 2), bs ! (a + 3)]"
    by (simp only: pyslice_hex take_drop_4 [OF assms])
  then show ?thesis by simp
qed

subsection \<open>The whole report\<close>

lemma sample_at:
  assumes "a + 3 < length buf"
  shows "StatusPositionSpeed_from_buf (pyslice (2 * a) (2 * a + 8) (hex buf))
     = Inr (StatusPositionSpeed_closed (buf ! a) (buf ! (a + 1)) (buf ! (a + 2)) (buf ! (a + 3)))"
  by (simp only: hex_slice_4 [OF assms] StatusPositionSpeed_from_buf_hex)

lemma swapped_at:
  assumes "a + 1 < length buf"
  shows "int_base16 (pyslice (2 * a + 2) (2 * a + 4) (hex buf) @ pyslice (2 * a) (2 * a + 2) (hex buf))
     = Inr (256 * uint (buf ! (a + 1)) + uint (buf ! a))"
proof -
  have "a < length buf" using assms by simp
  then have lo: "pyslice (2 * a) (2 * a + 2) (hex buf) = hex_byte (buf ! a)"
    by (rule hex_slice_1)
  have e: "2 * (a + 1) = 2 * a + 2" "2 * a + 2 + 2 = 2 * a + 4"
    by simp_all
  have "pyslice (2 * (a + 1)) (2 * (a + 1) + 2) (hex buf) = hex_byte (buf ! (a + 1))"
    using assms by (rule hex_slice_1)
  then have hi: "pyslice (2 * a + 2) (2 * a + 4) (hex buf) = hex_byte (buf ! (a + 1))"
    by (simp only: e)
  show ?thesis
    by (simp only: lo hi int_base16_hex_pair)
qed

lemma flags_at:
  assumes "a + 1 < length buf"
  shows "ValidFlags_from_buf (pyslice (2 * a) (2 * a + 4) (hex buf))
     = Inr (ValidFlags_closed (word_cat (buf ! a) (buf ! (a + 1))))"
proof -
  have "pyslice (2 * a) (2 * a + 2 * 2) (hex buf) = hex [buf ! a, buf ! (a + 1)]"
    by (simp only: pyslice_hex take_drop_2 [OF assms])
  then have "pyslice (2 * a) (2 * a + 4) (hex buf) = hex_byte (buf ! a) @ hex_byte (buf ! (a + 1))"
    by simp
  then show ?thesis
    by (simp only: ValidFlags_from_buf_hex)
qed

lemma StatusReport_from_buf_64:
  assumes len: "length buf = 64"
  shows "StatusReport_from_buf buf = Inr (StatusReport_closed buf)"
proof -
  have g: "getitem buf 0 = Inr (buf ! 0)" "getitem buf 1 = Inr (buf ! 1)"
    by (simp_all add: getitem_def len)
  have vf: "ValidFlags_from_buf (pyslice 4 8 (hex buf))
      = Inr (ValidFlags_closed (word_cat (buf ! 2) (buf ! 3)))"
    using flags_at [of 2 buf] len by simp
  have r1: "StatusPositionSpeed_from_buf (pyslice 8 16 (hex buf))
      = Inr (StatusPositionSpeed_closed (buf ! 4) (buf ! 5) (buf ! 6) (buf ! 7))"
    using sample_at [of 4 buf] len by simp
  have r2: "StatusPositionSpeed_from_buf (pyslice 16 24 (hex buf))
      = Inr (StatusPositionSpeed_closed (buf ! 8) (buf ! 9) (buf ! 10) (buf ! 11))"
    using sample_at [of 8 buf] len by simp
  have r3: "StatusPositionSpeed_from_buf (pyslice 24 32 (hex buf))
      = Inr (StatusPositionSpeed_closed (buf ! 12) (buf ! 13) (buf ! 14) (buf ! 15))"
    using sample_at [of 12 buf] len by simp
  have r4: "StatusPositionSpeed_from_buf (pyslice 32 40 (hex buf))
      = Inr (StatusPositionSpeed_closed (buf ! 16) (buf ! 17) (buf ! 18) (buf ! 19))"
    using sample_at [of 16 buf] len by simp
  have c1: "int_base16 (pyslice 42 44 (hex buf) @ pyslice 40 42 (hex buf))
      = Inr (256 * uint (buf ! 21) + uint (buf ! 20))"
    using swapped_at [of 20 buf] len by simp
  have c2: "int_base16 (pyslice 46 48 (hex buf) @ pyslice 44 46 (hex buf))
      = Inr (256 * uint (buf ! 23) + uint (buf ! 22))"
    using swapped_at [of 22 buf] len by simp
  have c3: "int_base16 (pyslice 50 52 (hex buf) @ pyslice 48 50 (hex buf))
      = Inr (256 * uint (buf ! 25) + uint (buf ! 24))"
    using swapped_at [of 24 buf] len by simp
  have c4: "int_base16 (pyslice 54 56 (hex buf) @ pyslice 52 54 (hex buf))
      = Inr (256 * uint (buf ! 27) + uint (buf ! 26))"
    using swapped_at [of 26 buf] len by simp
  have r5: "StatusPositionSpeed_from_buf (pyslice 56 64 (hex buf))
      = Inr (StatusPositionSpeed_closed (buf ! 28) (buf ! 29) (buf ! 30) (buf ! 31))"
    using sample_at [of 28 buf] len by simp
  have h1: "int_base16 (pyslice 86 88 (hex buf) @ pyslice 84 86 (hex buf))
      = Inr (256 * uint (buf ! 43) + uint (buf ! 42))"
    using swapped_at [of 42 buf] len by simp
  have h2: "int_base16 (pyslice 88 90 (hex buf) @ pyslice 86 88 (hex buf))
      = Inr (256 * uint (buf ! 44) + uint (buf ! 43))"
    using swapped_at [of 43 buf] len by simp
  have r6: "StatusPositionSpeed_from_buf (pyslice 90 98 (hex buf))
      = Inr (StatusPositionSpeed_closed (buf ! 45) (buf ! 46) (buf ! 47) (buf ! 48))"
    using sample_at [of 45 buf] len by simp
  have r7: "StatusPositionSpeed_from_buf (pyslice 98 106 (hex buf))
      = Inr (StatusPositionSpeed_closed (buf ! 49) (buf ! 50) (buf ! 51) (buf ! 52))"
    using sample_at [of 49 buf] len by simp
  have r8: "StatusPositionSpeed_from_buf (pyslice 106 114 (hex buf))
      = Inr (StatusPositionSpeed_closed (buf ! 53) (buf ! 54) (buf ! 55) (buf ! 56))"
    using sample_at [of 53 buf] len by simp
  have d: "pyslice 64 80 (hex buf) = hex (pyslice 32 40 buf)"
    using pyslice_hex [of 32 8 buf] by (simp add: pyslice_def)
  have u1: "pyslice 80 84 (hex buf) = hex (pyslice 40 42 buf)"
    using pyslice_hex [of 40 2 buf] by (simp add: pyslice_def)
  have u2: "drop 114 (hex buf) = hex (drop 57 buf)"
    using drop_hex [of 57 buf] by simp
  have n: "(8::nat) + 8 = 16" "(16::nat) + 8 = 24" "(24::nat) + 8 = 32" "(32::nat) + 8 = 40"
    "(56::nat) + 8 = 64" "(64::nat) + 16 = 80" "(90::nat) + 8 = 98" "(98::nat) + 8 = 106"
    "(106::nat) + 8 = 114"
    by simp_all
  show ?thesis
    unfolding StatusReport_from_buf_def Let_def n g vf r1 r2 r3 r4 c1 c2 c3 c4 r5 h1 h2 r6 r7 r8
      d u1 u2 ebind_Inr StatusReport_closed_def
    by (rule refl)
qed

section \<open>Lemmas on the controller\<close>

subsection \<open>The not-ready signature\<close>

lemma not_ready_loop_all:
  "(\<And>i. i \<in> set idx \<Longrightarrow> i < length buf) \<Longrightarrow>
   not_ready_loop buf idx = Inr (\<forall>i\<in>set idx. buf ! i = 0)"
proof (induction idx)
  case Nil
  show ?case by simp
next
  case (Cons i idx)
  then show ?case by (simp add: getitem_def)
qed

lemma not_ready_loop_upt:
  assumes "n \<le> length buf"
  shows "not_ready_loop buf [m..<n] = Inr (\<forall>i\<in>{m..<n}. buf ! i = 0)"
proof -
  have "i < length buf" if "i \<in> set [m..<n]" for i
    using that assms by (simp only: set_upt atLeastLessThan_iff) arith
  then have "not_ready_loop buf [m..<n] = Inr (\<forall>i\<in>set [m..<n]. buf ! i = 0)"
    by (rule not_ready_loop_all)
  then show ?thesis by (simp only: set_upt)
qed

lemma not_ready_64:
  assumes len: "length buf = 64"
  shows "is_status_report_not_ready buf
     = Inr (buf ! 0 = 4 \<and> buf ! 1 = 56 \<and> (\<forall>i\<in>{2..<59}. buf ! i = 0))"
proof -
  have g: "getitem buf 0 = Inr (buf ! 0)" "getitem buf 1 = Inr (buf ! 1)"
    by (simp_all add: getitem_def len)
  have n: "LEN_STATUS_REPORT - 5 = 59"
    by (simp add: LEN_STATUS_REPORT_def)
  have "59 \<le> length buf"
    by (simp add: len)
  then have l: "not_ready_loop buf [2..<59] = Inr (\<forall>i\<in>{2..<59}. buf ! i = 0)"
    by (rule not_ready_loop_upt)
  show ?thesis
    unfolding is_status_report_not_ready_def g ebind_Inr n l CMD_STATUS_REPORT_def
      NRB_STATUS_REPORT_def
    by (cases "buf ! 0 = 4"; cases "buf ! 1 = 56"; simp only: if_True if_False not_not not_False_eq_True simp_thms ebind_Inr)
qed

subsection \<open>The move command of a 16-bit code is built without error\<close>

lemma hexdigit_zero: "hexdigit 0 = CHR ''0''"
  by (simp add: hexdigit_def)

lemma nibbles_be_zero: "nibbles_be k 0 = replicate k 0"
  by (induction k) (simp_all add: replicate_append_same)

lemma pad_hex_digits:
  "n < 16 ^ Suc k \<Longrightarrow>
   replicate (Suc k - length (hex_digits n)) CHR ''0'' @ hex_digits n
     = map hexdigit (nibbles_be (Suc k) n)"
proof (induction k arbitrary: n)
  case 0
  then show ?case
    by (simp add: hex_digits.simps [of n])
next
  case (Suc k)
  show ?case
  proof (cases "n < 16")
    case True
    then have "n div 16 = 0" by simp
    with True show ?thesis
      by (simp add: hex_digits.simps [of n] nibbles_be_zero hexdigit_zero replicate_append_same)
  next
    case False
    from Suc.prems have "n div 16 < 16 ^ Suc k" by simp
    from Suc.IH [OF this] False show ?thesis
      by (simp add: hex_digits.simps [of n] Suc_diff_le)
  qed
qed

lemma nibbles_be_4:
  "nibbles_be 4 n = [n div 16 div 16 div 16 mod 16, n div 16 div 16 mod 16, n div 16 mod 16, n mod 16]"
proof -
  have "nibbles_be (Suc (Suc (Suc (Suc 0)))) n
      = [n div 16 div 16 div 16 mod 16, n div 16 div 16 mod 16, n div 16 mod 16, n mod 16]"
    by simp
  moreover have "(4::nat) = Suc (Suc (Suc (Suc 0)))"
    by simp
  ultimately show ?thesis by (simp only:)
qed

lemma format_04x_u16:
  assumes "0 \<le> h" "h < 65536"
  shows "\<exists>a b c d. a < 16 \<and> b < 16 \<and> c < 16 \<and> d < 16
           \<and> format_04x h = [hexdigit a, hexdigit b, hexdigit c, hexdigit d]"
proof -
  define n where "n = nat h"
  have "n < 16 ^ Suc 3" using assms by (simp add: n_def)
  from pad_hex_digits [OF this]
  have "replicate (4 - length (hex_digits n)) CHR ''0'' @ hex_digits n
      = map hexdigit (nibbles_be 4 n)"
    by simp
  moreover have "format_04x h = replicate (4 - length (hex_digits n)) CHR ''0'' @ hex_digits n"
    using assms by (simp add: format_04x_def n_def)
  ultimately have "format_04x h = [hexdigit (n div 16 div 16 div 16 mod 16),
      hexdigit (n div 16 div 16 mod 16), hexdigit (n div 16 mod 16), hexdigit (n mod 16)]"
    by (simp only: nibbles_be_4 list.map)
  moreover have "n div 16 div 16 div 16 mod 16 < 16" "n div 16 div 16 mod 16 < 16"
    "n div 16 mod 16 < 16" "n mod 16 < 16"
    by simp_all
  ultimately show ?thesis by blast
qed

lemma move_buffer_u16:
  assumes "0 \<le> h" "h < 65536"
  shows "\<exists>buf. move_buffer h = Inr buf"
proof -
  from format_04x_u16 [OF assms] obtain a b c d where
    lt: "a < 16" "b < 16" "c < 16" "d < 16"
    and f: "format_04x h = [hexdigit a, hexdigit b, hexdigit c, hexdigit d]"
    by blast
  have hi: "int_base16 (drop 2 (format_04x h)) = Inr (int (16 * c + d))"
    using int_base16_two [of c d] lt by (simp add: f)
  have lo: "int_base16 (pyslice 0 2 (format_04x h)) = Inr (int (16 * a + b))"
    using int_base16_two [of a b] lt by (simp add: f pyslice_def)
  have b1: "to_byte (int (16 * c + d)) = Inr (word_of_int (int (16 * c + d)))"
    using lt by (simp add: to_byte_def)
  have b2: "to_byte (int (16 * a + b)) = Inr (word_of_int (int (16 * a + b)))"
    using lt by (simp add: to_byte_def)
  show ?thesis
    unfolding move_buffer_def Let_def hi lo b1 b2 ebind_Inr by blast
qed

lemma move_priv_u16:
  assumes "0 \<le> h" "h < 65536"
  shows "move_priv t k h = Inr (move_reply t k = 64)"
proof -
  from move_buffer_u16 [OF assms] obtain buf where "move_buffer h = Inr buf" ..
  then show ?thesis
    by (simp add: move_priv_def control_write_read_def LEN_STATUS_REPORT_def)
qed

subsection \<open>A decoded position is a 16-bit value\<close>

lemma ebind_InrE:
  assumes "ebind m f = Inr y"
  obtains x where "m = Inr x" and "f x = Inr y"
  using assms by (cases m) simp_all

lemma hexval_bound: "hexval c = Some d \<Longrightarrow> d < 16"
  by (auto simp: hexval_def split: if_splits)

lemma digits16_bound: "digits16 s acc = Some v \<Longrightarrow> v < 16 ^ length s * (acc + 1)"
proof (induction s arbitrary: acc)
  case Nil
  then show ?case by simp
next
  case (Cons c cs)
  from Cons.prems obtain d where d: "hexval c = Some d" and r: "digits16 cs (16 * acc + d) = Some v"
    by (auto split: option.splits)
  have "d < 16" using d by (rule hexval_bound)
  then have "16 * acc + d + 1 \<le> 16 * (acc + 1)" by simp
  then have "16 ^ length cs * (16 * acc + d + 1) \<le> 16 ^ length cs * (16 * (acc + 1))"
    by (rule mult_le_mono2)
  with Cons.IH [OF r] have "v < 16 ^ length cs * (16 * (acc + 1))"
    by (rule less_le_trans)
  moreover have "16 ^ length cs * (16 * (acc + 1)) = 16 ^ length (c # cs) * (acc + 1)"
    by (simp add: algebra_simps)
  ultimately show ?case by (simp only:)
qed

lemma int_base16_bound:
  assumes "int_base16 s = Inr v" and "CHR ''-'' \<notin> set s"
  shows "0 \<le> v \<and> v < 16 ^ length s"
proof -
  have "s = [] \<or> hd s \<noteq> CHR ''-''"
    using assms(2) by (cases s) auto
  with assms(1) have "unsigned16 s = Inr v"
    by (auto simp: int_base16_def)
  then obtain n where n: "digits16 s 0 = Some n" and v: "v = int n"
    by (auto simp: unsigned16_def split: if_splits option.splits)
  from digits16_bound [OF n] have "n < 16 ^ length s" by simp
  then have "int n < 16 ^ length s"
    by (metis of_nat_less_iff of_nat_numeral of_nat_power)
  with v show ?thesis by simp
qed

lemma hex_byte_no_sign: "CHR ''-'' \<notin> set (hex_byte b)"
proof -
  have "unat b div 16 < 16" by (rule byte_hi)
  moreover have "unat b mod 16 < 16" by simp
  ultimately show ?thesis
    using hexdigit_no_sign [of "unat b div 16"] hexdigit_no_sign [of "unat b mod 16"]
    by (auto simp: hex_byte_def)
qed

lemma hex_no_sign: "CHR ''-'' \<notin> set (hex bs)"
  by (induction bs) (simp_all add: hex_byte_no_sign)

lemma pyslice_set: "set (pyslice a b xs) \<subseteq> set xs"
  unfolding pyslice_def by (meson set_take_subset set_drop_subset subset_trans)

lemma pyslice_length: "length (pyslice a (a + k) xs) \<le> k"
  by (simp add: pyslice_def)

lemma sample_pos_bound:
  assumes "StatusPositionSpeed_from_buf s = Inr x" and "CHR ''-'' \<notin> set s"
  shows "0 \<le> pos x \<and> pos x < 65536"
proof -
  let ?d = "pyslice 2 4 s @ pyslice 0 2 s"
  from assms(1) obtain p where p: "int_base16 ?d = Inr p" and "pos x = p"
    unfolding StatusPositionSpeed_from_buf_def by (auto elim!: ebind_InrE)
  have "CHR ''-'' \<notin> set ?d"
    using assms(2) pyslice_set [of 2 4 s] pyslice_set [of 0 2 s] by auto
  from int_base16_bound [OF p this] have "0 \<le> p" "p < 16 ^ length ?d"
    by simp_all
  moreover have "length ?d \<le> 4"
    by (simp add: pyslice_def)
  then have "(16::int) ^ length ?d \<le> 16 ^ 4"
    by (rule power_increasing) simp
  ultimately show ?thesis
    using \<open>pos x = p\<close> by simp
qed

lemma ref1_pos_bound:
  assumes "StatusReport_from_buf buf = Inr r"
  shows "0 \<le> pos (ref1 r) \<and> pos (ref1 r) < 65536"
proof -
  from assms obtain x where "StatusPositionSpeed_from_buf (pyslice 8 (8 + 8) (hex buf)) = Inr x"
    and "ref1 r = x"
    unfolding StatusReport_from_buf_def Let_def by (auto elim!: ebind_InrE)
  moreover have "CHR ''-'' \<notin> set (pyslice 8 (8 + 8) (hex buf))"
    using pyslice_set [of 8 "8 + 8" "hex buf"] hex_no_sign [of buf] by blast
  ultimately show ?thesis
    using sample_pos_bound by simp
qed

subsection \<open>One poll, one iteration\<close>

lemma is_ok_Inr [simp]: "is_ok (Inr x)"
  by (simp add: is_ok_def)

lemma is_ok_Inl [simp]: "\<not> is_ok (Inl e)"
  by (simp add: is_ok_def)

lemma get_status_report_full:
  assumes "status_reply t k = (64, buf)" and "length buf = 64"
  shows "get_status_report t k
     = (if buf ! 0 \<noteq> CMD_STATUS_REPORT then Inl ProtocolMismatch else Inr buf)"
proof -
  have "buf \<noteq> []" using assms(2) by auto
  then show ?thesis
    using assms by (simp add: get_status_report_def control_write_read_def getitem_def)
qed

lemma poll_full:
  assumes "status_reply t k = (64, buf)" and "length buf = 64" and "buf ! 0 = CMD_STATUS_REPORT"
  shows "ebind (get_status_report t k) StatusReport_from_buf = Inr (StatusReport_closed buf)"
  by (simp add: get_status_report_full [OF assms(1,2)] assms(3) StatusReport_from_buf_64 [OF assms(2)])

lemma move_priv_cases:
  "(case move_priv t k h of Inl e \<Rightarrow> A e | Inr sent \<Rightarrow> B)
     = (case move_buffer h of Inl e \<Rightarrow> A e | Inr buf \<Rightarrow> B)"
  by (cases "move_buffer h") (simp_all add: move_priv_def control_write_read_def)

lemma poll_cases:
  "(case get_status_report t k of Inl e \<Rightarrow> A e
      | Inr buf \<Rightarrow> (case StatusReport_from_buf buf of Inl e \<Rightarrow> A e | Inr r \<Rightarrow> B r))
     = (case ebind (get_status_report t k) StatusReport_from_buf of Inl e \<Rightarrow> A e | Inr r \<Rightarrow> B r)"
  by (cases "get_status_report t k") simp_all

lemma move_loop_Suc:
  "move_loop (Suc fuel) t target k retry_count prev_height =
     (case move_buffer target of Inl e \<Rightarrow> Some (Inl e) | Inr sent \<Rightarrow>
      case ebind (get_status_report t k) StatusReport_from_buf of Inl e \<Rightarrow> Some (Inl e) | Inr r \<Rightarrow>
        if update_retry retry_count prev_height r = 0
        then Some (Inr (\<bar>pos (ref1 r) - target\<bar> \<le> epsilon, Suc k))
        else move_loop fuel t target (Suc k) (update_retry retry_count prev_height r) (pos (ref1 r)))"
  by (simp only: move_loop.simps move_priv_cases poll_cases Let_def)

lemma move_loop_step:
  assumes "0 \<le> target" "target < 65536"
    and "ebind (get_status_report t k) StatusReport_from_buf = Inr r"
  shows "move_loop (Suc fuel) t target k retry_count prev_height =
     (if update_retry retry_count prev_height r = 0
      then Some (Inr (\<bar>pos (ref1 r) - target\<bar> \<le> epsilon, Suc k))
      else move_loop fuel t target (Suc k) (update_retry retry_count prev_height r) (pos (ref1 r)))"
proof -
  from move_buffer_u16 [OF assms(1,2)] obtain sent where "move_buffer target = Inr sent" ..
  then show ?thesis
    by (simp only: move_loop_Suc assms(3) sum.case)
qed

lemma poll_pos_bound:
  assumes "ebind (get_status_report t k) StatusReport_from_buf = Inr r"
  shows "0 \<le> pos (ref1 r) \<and> pos (ref1 r) < 65536"
proof -
  from assms obtain buf where "StatusReport_from_buf buf = Inr r"
    by (rule ebind_InrE)
  then show ?thesis by (rule ref1_pos_bound)
qed

lemma get_height_poll:
  "get_height t = ebind (ebind (get_status_report t 0) StatusReport_from_buf)
     (\<lambda>r. ebind (truediv_98 (pos (ref1 r))) (\<lambda>cm. Inr (pos (ref1 r), cm)))"
  by (cases "get_status_report t 0") (simp_all add: get_height_def)

lemma get_status_report_reply:
  "status_reply t' k = status_reply t k \<Longrightarrow> get_status_report t' k = get_status_report t k"
  by (simp add: get_status_report_def)

subsection \<open>The loop under steady and under moving polls\<close>

lemma move_loop_same_polls:
  assumes "\<And>k. ebind (get_status_report t1 k) StatusReport_from_buf
              = ebind (get_status_report t2 k) StatusReport_from_buf"
  shows "move_loop fuel t1 target k retry_count prev_height
       = move_loop fuel t2 target k retry_count prev_height"
proof (induction fuel arbitrary: k retry_count prev_height)
  case 0
  show ?case by simp
next
  case (Suc fuel)
  show ?case
    by (simp only: move_loop_Suc assms Suc.IH)
qed

lemma update_retry_steady:
  "pos (ref1 r) = prev \<Longrightarrow> update_retry retry_count prev r = retry_count - 1"
  by (simp add: update_retry_def)

lemma update_retry_first:
  "update_retry 3 0 r
     = (if \<bar>ref1cnt r - pos (ref1 r)\<bar> \<le> epsilon \<or> \<bar>pos (ref1 r)\<bar> \<le> epsilon then 2 else 3)"
  by (auto simp: update_retry_def max_retry_def epsilon_def)

lemma move_steady:
  assumes polls: "\<And>k. ebind (get_status_report t k) StatusReport_from_buf = Inr (rep k)"
    and pos: "\<And>k. pos (ref1 (rep k)) = target"
  shows "move (Suc (Suc (Suc (Suc fuel)))) t target
     = Some (Inr (True, if \<bar>ref1cnt (rep 0) - target\<bar> \<le> epsilon \<or> target \<le> epsilon
                         then 3 else 4))"
    and "\<not> (\<bar>ref1cnt (rep 0) - target\<bar> \<le> epsilon \<or> target \<le> epsilon)
         \<Longrightarrow> move 3 t target = None"
proof -
  from poll_pos_bound [OF polls [of 0]] have range: "0 \<le> target" "target < 65536"
    by (simp_all add: pos)
  have step: "move_loop (Suc f) t target k rc prev =
     (if update_retry rc prev (rep k) = 0 then Some (Inr (True, Suc k))
      else move_loop f t target (Suc k) (update_retry rc prev (rep k)) target)" for f k rc prev
    using move_loop_step [OF range polls [of k], of f rc prev]
    by (simp add: pos epsilon_def)
  have later: "update_retry rc target (rep k) = rc - 1" for rc k
    by (rule update_retry_steady) (rule pos)
  have first: "update_retry 3 0 (rep 0)
      = (if \<bar>ref1cnt (rep 0) - target\<bar> \<le> epsilon \<or> target \<le> epsilon then 2 else 3)"
    using range by (simp add: update_retry_first pos)
  have s1: "move_loop (Suc f) t target 0 3 0
      = move_loop f t target (Suc 0) (update_retry 3 0 (rep 0)) target" for f
    by (subst step) (simp add: first)
  have s2: "move_loop (Suc f) t target k 3 target = move_loop f t target (Suc k) 2 target"
    and s3: "move_loop (Suc f) t target k 2 target = move_loop f t target (Suc k) 1 target"
    and s4: "move_loop (Suc f) t target k 1 target = Some (Inr (True, Suc k))" for f k
    by (subst step, simp add: later)+
  show "move (Suc (Suc (Suc (Suc fuel)))) t target
     = Some (Inr (True, if \<bar>ref1cnt (rep 0) - target\<bar> \<le> epsilon \<or> target \<le> epsilon
                         then 3 else 4))"
  proof (cases "\<bar>ref1cnt (rep 0) - target\<bar> \<le> epsilon \<or> target \<le> epsilon")
    case True
    then have "update_retry 3 0 (rep 0) = 2" by (simp only: first if_True)
    then have "move (Suc (Suc (Suc (Suc fuel)))) t target = Some (Inr (True, Suc (Suc (Suc 0))))"
      by (simp only: move_def max_retry_def s1 s3 s4)
    with True show ?thesis by (simp add: numeral_3_eq_3)
  next
    case False
    then have "update_retry 3 0 (rep 0) = 3" by (simp only: first if_False)
    then have "move (Suc (Suc (Suc (Suc fuel)))) t target
        = Some (Inr (True, Suc (Suc (Suc (Suc 0)))))"
      by (simp only: move_def max_retry_def s1 s2 s3 s4)
    with False show ?thesis by (simp add: eval_nat_numeral)
  qed
  assume "\<not> (\<bar>ref1cnt (rep 0) - target\<bar> \<le> epsilon \<or> target \<le> epsilon)"
  then have "update_retry 3 0 (rep 0) = 3" by (simp only: first if_False)
  then have "move (Suc (Suc (Suc 0))) t target = None"
    by (simp only: move_def max_retry_def s1 s2 s3 move_loop.simps(1))
  then show "move 3 t target = None"
    by (simp only: numeral_3_eq_3)
qed

lemma update_retry_moving:
  "epsilon < \<bar>ref1cnt r - pos (ref1 r)\<bar> \<Longrightarrow> epsilon < \<bar>prev - pos (ref1 r)\<bar> \<Longrightarrow>
   pos (ref1 r) \<noteq> prev \<Longrightarrow> update_retry retry_count prev r = max_retry"
  by (auto simp: update_retry_def Let_def)

lemma move_loop_moving:
  assumes range: "0 \<le> target" "target < 65536"
    and polls: "\<And>k. ebind (get_status_report t k) StatusReport_from_buf = Inr (rep k)"
    and later: "\<And>k. epsilon < \<bar>ref1cnt (rep (Suc k)) - pos (ref1 (rep (Suc k)))\<bar>
                  \<and> epsilon < \<bar>pos (ref1 (rep k)) - pos (ref1 (rep (Suc k)))\<bar>
                  \<and> pos (ref1 (rep (Suc k))) \<noteq> pos (ref1 (rep k))"
  shows "epsilon < \<bar>ref1cnt (rep k) - pos (ref1 (rep k))\<bar> \<Longrightarrow>
         epsilon < \<bar>prev - pos (ref1 (rep k))\<bar> \<Longrightarrow> pos (ref1 (rep k)) \<noteq> prev \<Longrightarrow>
         move_loop fuel t target k max_retry prev = None"
proof (induction fuel arbitrary: k prev)
  case 0
  show ?case by simp
next
  case (Suc fuel)
  have u: "update_retry max_retry prev (rep k) = max_retry"
    using Suc.prems by (rule update_retry_moving)
  have "move_loop fuel t target (Suc k) max_retry (pos (ref1 (rep k))) = None"
    using later [of k] by (intro Suc.IH) simp_all
  moreover have "max_retry \<noteq> 0"
    by (simp add: max_retry_def)
  ultimately show ?case
    by (simp only: move_loop_step [OF range polls] u if_False)
qed

section \<open>Lemmas on the concrete reports and transports\<close>

lemma report_buf_length [simp]: "length (report_buf a b c d) = 64"
  by (simp add: report_buf_def)

lemma report_buf_nth:
  "report_buf a b c d ! 0 = 4" "report_buf a b c d ! 4 = a" "report_buf a b c d ! 5 = b"
  "report_buf a b c d ! 20 = c" "report_buf a b c d ! 21 = d"
  by (simp_all add: report_buf_def)

lemma report_buf_id: "report_buf a b c d ! 0 = CMD_STATUS_REPORT"
  by (simp add: report_buf_nth CMD_STATUS_REPORT_def)

lemma report_buf_ref1:
  "pos (ref1 (StatusReport_closed (report_buf a b c d))) = 256 * uint b + uint a"
  "ref1cnt (StatusReport_closed (report_buf a b c d)) = 256 * uint d + uint c"
  by (simp_all add: StatusReport_closed_def StatusPositionSpeed_closed_def report_buf_nth)

lemma steady_buf_length: "length steady_buf = 64"
  by (simp add: steady_buf_def)

lemma const_reply_poll:
  assumes "status_reply t = const_reply buf" and "length buf = 64" and "buf ! 0 = CMD_STATUS_REPORT"
  shows "ebind (get_status_report t k) StatusReport_from_buf = Inr (StatusReport_closed buf)"
proof -
  have "status_reply t k = (64, buf)"
    by (simp add: assms(1) const_reply_def)
  then show ?thesis
    using assms(2,3) by (rule poll_full)
qed

lemma four_Suc: "(4::nat) = Suc (Suc (Suc (Suc 0)))"
  by simp

lemma settled_poll:
  "ebind (get_status_report settled_transport k) StatusReport_from_buf
     = Inr (StatusReport_closed settled_buf)"
  by (rule const_reply_poll) (simp_all add: settled_transport_def settled_buf_def report_buf_id)

lemma settled_report:
  "pos (ref1 (StatusReport_closed settled_buf)) = 1000"
  "ref1cnt (StatusReport_closed settled_buf) = 1000"
  by (simp_all add: settled_buf_def report_buf_ref1)

lemma steady_poll:
  "ebind (get_status_report steady_transport k) StatusReport_from_buf
     = Inr (StatusReport_closed steady_buf)"
  by (rule const_reply_poll) (simp_all add: steady_transport_def steady_buf_def report_buf_id)

lemma steady_report:
  "pos (ref1 (StatusReport_closed steady_buf)) = 1000"
  "ref1cnt (StatusReport_closed steady_buf) = 0"
  by (simp_all add: steady_buf_def report_buf_ref1)

lemma unanswered_poll:
  "ebind (get_status_report unanswered_transport k) StatusReport_from_buf
     = Inr (StatusReport_closed settled_buf)"
  by (rule const_reply_poll) (simp_all add: unanswered_transport_def settled_buf_def report_buf_id)

lemma oscillating_poll:
  "ebind (get_status_report oscillating_transport k) StatusReport_from_buf
     = Inr (oscillating_report k)"
proof -
  have "status_reply oscillating_transport k = (64, if even k then steady_buf else moving_buf)"
    by (simp add: oscillating_transport_def oscillating_reply_def)
  moreover have "length (if even k then steady_buf else moving_buf) = 64"
    by (simp add: steady_buf_def moving_buf_def)
  moreover have "(if even k then steady_buf else moving_buf) ! 0 = CMD_STATUS_REPORT"
    by (simp add: steady_buf_def moving_buf_def report_buf_id)
  ultimately show ?thesis
    unfolding oscillating_report_def by (rule poll_full)
qed

lemma oscillating_values:
  "pos (ref1 (oscillating_report k)) = (if even k then 1000 else 2000)"
  "ref1cnt (oscillating_report k) = 0"
  by (simp_all add: oscillating_report_def steady_buf_def moving_buf_def report_buf_ref1)

lemma zero_poll: "status_reply zero_transport k = (64, zero_buf)"
  by (simp add: zero_transport_def const_reply_def)

section \<open>The claims\<close>

subsection \<open>The decoder\<close>

text \<open>
  C9: \<open>StatusReport.from_buf\<close> is total on 64-byte buffers. Whatever the bytes are,
  byte 0 included, it raises nothing and returns a report with every field set, the
  status flags of each sample among them: the report is \<open>StatusReport_closed buf\<close>.
\<close>

theorem StatusReport_from_buf_total:
  "length buf = 64 \<Longrightarrow>
   StatusReport_from_buf buf = Inr (StatusReport_closed buf) \<and> is_ok (StatusReport_from_buf buf)"
  by (simp add: StatusReport_from_buf_64 is_ok_def)

text \<open>The buffer of 64 bytes \<open>0xff\<close> decodes; its ref1 position is 65535.\<close>

theorem StatusReport_from_buf_total_witness:
  "length full_buf = 64 \<and> is_ok (StatusReport_from_buf full_buf)
   \<and> pos (ref1 (projr (StatusReport_from_buf full_buf))) = 65535
   \<and> Status.unknown (status (ref8 (projr (StatusReport_from_buf full_buf)))) = 15"
proof -
  have len: "length full_buf = 64"
    by (simp add: full_buf_def)
  from StatusReport_from_buf_total [OF len]
  have e: "StatusReport_from_buf full_buf = Inr (StatusReport_closed full_buf)"
    and ok: "is_ok (StatusReport_from_buf full_buf)"
    by simp_all
  have p: "pos (ref1 (StatusReport_closed full_buf)) = 65535"
    by (simp add: StatusReport_closed_def StatusPositionSpeed_closed_def full_buf_def)
  have u: "Status.unknown (status (ref8 (StatusReport_closed full_buf))) = 15"
    by (simp add: StatusReport_closed_def StatusPositionSpeed_closed_def Status_closed_def
        full_buf_def)
  show ?thesis
    using len ok p u by (simp add: e)
qed

text \<open>
  C7: \<open>ValidFlags.from_buf\<close> reads the 16-bit word most significant bit first: on the
  four hexadecimal digits of the bytes \<open>hi\<close> and \<open>lo\<close> the flag at position \<open>i\<close> of the
  list of names is bit \<open>15 - i\<close> of the word with high byte \<open>hi\<close> and low byte \<open>lo\<close>
  (\<open>ValidFlags_closed\<close>). The word \<open>0x8000\<close> sets the first flag only, and \<open>0x0000\<close>
  sets none.
\<close>

theorem ValidFlags_msb_first:
  "ValidFlags_from_buf (hex [hi, lo]) = Inr (ValidFlags_closed (word_cat hi lo))
   \<and> ValidFlags_from_buf ''8000''
       = Inr \<lparr>ID00_Ref1_pos_stat_speed = True, ID01_Ref2_pos_stat_speed = False,
              ID02_Ref3_pos_stat_speed = False, ID03_Ref4_pos_stat_speed = False,
              ID10_Ref1_controlInput = False, ID11_Ref2_controlInput = False,
              ID12_Ref3_controlInput = False, ID13_Ref4_controlInput = False,
              ID04_Ref5_pos_stat_speed = False, ID28_Diagnostic = False,
              ID05_Ref6_pos_stat_speed = False, ID37_Handset1command = False,
              ID38_Handset2command = False, ID06_Ref7_pos_stat_speed = False,
              ID07_Ref8_pos_stat_speed = False, ValidFlags.unknown = False\<rparr>
   \<and> ValidFlags_from_buf ''0000''
       = Inr \<lparr>ID00_Ref1_pos_stat_speed = False, ID01_Ref2_pos_stat_speed = False,
              ID02_Ref3_pos_stat_speed = False, ID03_Ref4_pos_stat_speed = False,
              ID10_Ref1_controlInput = False, ID11_Ref2_controlInput = False,
              ID12_Ref3_controlInput = False, ID13_Ref4_controlInput = False,
              ID04_Ref5_pos_stat_speed = False, ID28_Diagnostic = False,
              ID05_Ref6_pos_stat_speed = False, ID37_Handset1command = False,
              ID38_Handset2command = False, ID06_Ref7_pos_stat_speed = False,
              ID07_Ref8_pos_stat_speed = False, ValidFlags.unknown = False\<rparr>"
proof -
  have g: "ValidFlags_from_buf (hex [hi, lo]) = Inr (ValidFlags_closed (word_cat hi lo))" for hi lo
    using ValidFlags_from_buf_hex [of hi lo] by simp
  have h8: "hex [0x80, 0] = ''8000''" and h0: "hex [0, 0] = ''0000''"
    by (simp_all add: hex_byte_def hexdigit_def)
  have w8: "(word_cat (0x80::byte) (0::byte) :: 16 word) = 0x8000"
    and w0: "(word_cat (0::byte) (0::byte) :: 16 word) = 0"
    by (simp_all add: word_cat_eq push_bit_eq_mult)
  have c8: "ValidFlags_closed 0x8000
       = \<lparr>ID00_Ref1_pos_stat_speed = True, ID01_Ref2_pos_stat_speed = False,
              ID02_Ref3_pos_stat_speed = False, ID03_Ref4_pos_stat_speed = False,
              ID10_Ref1_controlInput = False, ID11_Ref2_controlInput = False,
              ID12_Ref3_controlInput = False, ID13_Ref4_controlInput = False,
              ID04_Ref5_pos_stat_speed = False, ID28_Diagnostic = False,
              ID05_Ref6_pos_stat_speed = False, ID37_Handset1command = False,
              ID38_Handset2command = False, ID06_Ref7_pos_stat_speed = False,
              ID07_Ref8_pos_stat_speed = False, ValidFlags.unknown = False\<rparr>"
    by (simp add: ValidFlags_closed_def bit_iff_odd)
  have c0: "ValidFlags_closed 0
       = \<lparr>ID00_Ref1_pos_stat_speed = False, ID01_Ref2_pos_stat_speed = False,
              ID02_Ref3_pos_stat_speed = False, ID03_Ref4_pos_stat_speed = False,
              ID10_Ref1_controlInput = False, ID11_Ref2_controlInput = False,
              ID12_Ref3_controlInput = False, ID13_Ref4_controlInput = False,
              ID04_Ref5_pos_stat_speed = False, ID28_Diagnostic = False,
              ID05_Ref6_pos_stat_speed = False, ID37_Handset1command = False,
              ID38_Handset2command = False, ID06_Ref7_pos_stat_speed = False,
              ID07_Ref8_pos_stat_speed = False, ValidFlags.unknown = False\<rparr>"
    by (simp add: ValidFlags_closed_def)
  have "ValidFlags_from_buf ''8000'' = Inr (ValidFlags_closed 0x8000)"
    using g [of "0x80" 0] by (simp only: h8 w8)
  moreover have "ValidFlags_from_buf ''0000'' = Inr (ValidFlags_closed 0)"
    using g [of 0 0] by (simp only: h0 w0)
  ultimately show ?thesis
    by (simp only: g c8 c0 simp_thms)
qed

text \<open>
  C5: every 16-bit field is read with the digits of the second encoded byte before those
  of the first, in base 16. A sample of bytes \<open>a b c d\<close> has position \<open>256 * b + a\<close>;
  in a 64-byte report the positions of ref1 to ref8 and the counters ref1cnt to ref4cnt
  are the values \<open>256 * second + first\<close> of the two bytes their slices select; and the
  digits \<open>3412\<close> give \<open>0x1234\<close>.
\<close>

theorem swapped_16bit_fields:
  "length buf = 64 \<Longrightarrow>
   (\<exists>x. StatusPositionSpeed_from_buf (hex [a, b, c, d]) = Inr x \<and> pos x = 256 * uint b + uint a)
   \<and> (\<exists>r. StatusReport_from_buf buf = Inr r
        \<and> pos (ref1 r) = 256 * uint (buf ! 5) + uint (buf ! 4)
        \<and> pos (ref2 r) = 256 * uint (buf ! 9) + uint (buf ! 8)
        \<and> pos (ref3 r) = 256 * uint (buf ! 13) + uint (buf ! 12)
        \<and> pos (ref4 r) = 256 * uint (buf ! 17) + uint (buf ! 16)
        \<and> ref1cnt r = 256 * uint (buf ! 21) + uint (buf ! 20)
        \<and> ref2cnt r = 256 * uint (buf ! 23) + uint (buf ! 22)
        \<and> ref3cnt r = 256 * uint (buf ! 25) + uint (buf ! 24)
        \<and> ref4cnt r = 256 * uint (buf ! 27) + uint (buf ! 26)
        \<and> pos (ref5 r) = 256 * uint (buf ! 29) + uint (buf ! 28)
        \<and> pos (ref6 r) = 256 * uint (buf ! 46) + uint (buf ! 45)
        \<and> pos (ref7 r) = 256 * uint (buf ! 50) + uint (buf ! 49)
        \<and> pos (ref8 r) = 256 * uint (buf ! 54) + uint (buf ! 53))
   \<and> int_base16 (pyslice 2 4 ''3412'' @ pyslice 0 2 ''3412'') = Inr 0x1234
   \<and> (\<exists>x. StatusPositionSpeed_from_buf ''34120000'' = Inr x \<and> pos x = 0x1234)"
proof -
  assume len: "length buf = 64"
  have h: "hex [0x34, 0x12, 0, 0] = ''34120000''" and h2: "hex_byte 0x12 @ hex_byte 0x34 = ''1234''"
    by (simp_all add: hex_byte_def hexdigit_def)
  have one: "\<exists>x. StatusPositionSpeed_from_buf (hex [a, b, c, d]) = Inr x \<and> pos x = 256 * uint b + uint a"
    by (simp add: StatusPositionSpeed_from_buf_hex StatusPositionSpeed_closed_def)
  have two: "\<exists>r. StatusReport_from_buf buf = Inr r
        \<and> pos (ref1 r) = 256 * uint (buf ! 5) + uint (buf ! 4)
        \<and> pos (ref2 r) = 256 * uint (buf ! 9) + uint (buf ! 8)
        \<and> pos (ref3 r) = 256 * uint (buf ! 13) + uint (buf ! 12)
        \<and> pos (ref4 r) = 256 * uint (buf ! 17) + uint (buf ! 16)
        \<and> ref1cnt r = 256 * uint (buf ! 21) + uint (buf ! 20)
        \<and> ref2cnt r = 256 * uint (buf ! 23) + uint (buf ! 22)
        \<and> ref3cnt r = 256 * uint (buf ! 25) + uint (buf ! 24)
        \<and> ref4cnt r = 256 * uint (buf ! 27) + uint (buf ! 26)
        \<and> pos (ref5 r) = 256 * uint (buf ! 29) + uint (buf ! 28)
        \<and> pos (ref6 r) = 256 * uint (buf ! 46) + uint (buf ! 45)
        \<and> pos (ref7 r) = 256 * uint (buf ! 50) + uint (buf ! 49)
        \<and> pos (ref8 r) = 256 * uint (buf ! 54) + uint (buf ! 53)"
    by (simp add: StatusReport_from_buf_64 [OF len] StatusReport_closed_def
        StatusPositionSpeed_closed_def)
  have "int_base16 (hex_byte 0x12 @ hex_byte 0x34) = Inr (256 * uint (0x12::byte) + uint (0x34::byte))"
    by (rule int_base16_hex_pair)
  then have three: "int_base16 (pyslice 2 4 ''3412'' @ pyslice 0 2 ''3412'') = Inr 0x1234"
    by (simp add: h2 pyslice_def)
  have four: "\<exists>x. StatusPositionSpeed_from_buf ''34120000'' = Inr x \<and> pos x = 0x1234"
    using StatusPositionSpeed_from_buf_hex [of "0x34" "0x12" 0 0]
    by (simp add: h [symmetric] StatusPositionSpeed_closed_def)
  from one two three four show ?thesis by blast
qed

text \<open>The report with bytes \<open>0xe8 0x03\<close> at offsets 4 and 5 has ref1 position 1000.\<close>

theorem swapped_16bit_fields_witness:
  "length steady_buf = 64
   \<and> steady_buf ! 4 = 0xE8 \<and> steady_buf ! 5 = 0x03
   \<and> (\<exists>r. StatusReport_from_buf steady_buf = Inr r \<and> pos (ref1 r) = 1000)"
proof -
  from swapped_16bit_fields [OF steady_buf_length, of 0 0 0 0]
  obtain r where r: "StatusReport_from_buf steady_buf = Inr r"
    and p: "pos (ref1 r) = 256 * uint (steady_buf ! 5) + uint (steady_buf ! 4)"
    by blast
  have n: "steady_buf ! 4 = 0xE8" "steady_buf ! 5 = 0x03"
    by (simp_all add: steady_buf_def report_buf_nth)
  from p have "pos (ref1 r) = 1000"
    by (simp add: n)
  with r n steady_buf_length show ?thesis
    by blast
qed

text \<open>
  C2: the claim puts handset2 in bytes 44 and 45 and ref6, ref7, ref8 in bytes 46 to 57.
  The source reads handset2 from \<^verbatim>\<open>raw[88:90] + raw[86:88]\<close>, that is bytes 44 and 43, and
  ref6 from \<^verbatim>\<open>raw[90:98]\<close>, that is bytes 45 to 48. On the report whose only non-zero
  payload byte is byte 45 (value 1) the claim's layout gives handset2 = 256 and a ref6
  position of 0; the decoder returns handset2 = 0 and a ref6 position of 1.
\<close>

theorem handset2_ref6_one_byte_early:
  "length shifted_buf = 64 \<and> shifted_buf ! 43 = 0 \<and> shifted_buf ! 44 = 0
   \<and> shifted_buf ! 45 = 1 \<and> shifted_buf ! 46 = 0
   \<and> StatusReport_from_buf shifted_buf = Inr (StatusReport_closed shifted_buf)
   \<and> handset2 (StatusReport_closed shifted_buf) = 0
   \<and> pos (ref6 (StatusReport_closed shifted_buf)) = 1"
proof -
  have len: "length shifted_buf = 64"
    by (simp add: shifted_buf_def)
  have n: "shifted_buf ! 43 = 0" "shifted_buf ! 44 = 0" "shifted_buf ! 45 = 1" "shifted_buf ! 46 = 0"
    by (simp_all add: shifted_buf_def)
  show ?thesis
    by (simp add: len n StatusReport_from_buf_64 [OF len] StatusReport_closed_def
        StatusPositionSpeed_closed_def)
qed

text \<open>
  C1, as stated, fails: \<open>StatusReport.from_buf\<close> decodes the buffer of 64 zero bytes,
  whose byte 0 is not the status command id, into a report.
\<close>

theorem from_buf_decodes_mismatched_buffer:
  "length zero_buf = 64 \<and> zero_buf ! 0 \<noteq> CMD_STATUS_REPORT
   \<and> is_ok (StatusReport_from_buf zero_buf)
   \<and> StatusReport_from_buf zero_buf \<noteq> Inl ProtocolMismatch"
proof -
  have len: "length zero_buf = 64"
    by (simp add: zero_buf_def)
  have "zero_buf ! 0 \<noteq> CMD_STATUS_REPORT"
    by (simp add: zero_buf_def CMD_STATUS_REPORT_def)
  then show ?thesis
    by (simp add: len StatusReport_from_buf_64 [OF len])
qed

subsection \<open>The controller\<close>

text \<open>
  C6: on a 64-byte buffer \<^verbatim>\<open>_is_status_report_not_ready\<close> returns true exactly when
  byte 0 is the status command id, byte 1 is 56 and the bytes at indices 2 to 58 are all
  zero; a non-zero value written at any one index from 2 to 58 makes it return false.
\<close>

theorem not_ready_signature:
  "length buf = 64 \<Longrightarrow>
   is_status_report_not_ready buf
     = Inr (buf ! 0 = CMD_STATUS_REPORT \<and> buf ! 1 = 56 \<and> (\<forall>i\<in>{2..<64 - 5}. buf ! i = 0))
   \<and> (\<forall>i v. 2 \<le> i \<and> i < 64 - 5 \<and> v \<noteq> 0
         \<longrightarrow> is_status_report_not_ready (buf[i := v]) = Inr False)"
proof -
  assume len: "length buf = 64"
  have "is_status_report_not_ready (buf[i := v]) = Inr False"
    if "2 \<le> i" "i < 59" "v \<noteq> 0" for i v
  proof -
    have "length (buf[i := v]) = 64" using len by simp
    from not_ready_64 [OF this] have
      "is_status_report_not_ready (buf[i := v])
         = Inr (buf[i := v] ! 0 = 4 \<and> buf[i := v] ! 1 = 56 \<and> (\<forall>j\<in>{2..<59}. buf[i := v] ! j = 0))" .
    moreover have "i \<in> {2..<59}" using that by simp
    moreover have "buf[i := v] ! i \<noteq> 0" using that len by simp
    ultimately show ?thesis by auto
  qed
  then show ?thesis
    using not_ready_64 [OF len] by (simp add: CMD_STATUS_REPORT_def)
qed

text \<open>The report \<open>04 38 00 ...\<close> has the signature; one non-zero byte removes it.\<close>

theorem not_ready_signature_witness:
  "length not_ready_buf = 64
   \<and> is_status_report_not_ready not_ready_buf = Inr True
   \<and> is_status_report_not_ready (not_ready_buf[10 := 1]) = Inr False
   \<and> is_status_report_not_ready (not_ready_buf[58 := 255]) = Inr False"
proof -
  have len: "length not_ready_buf = 64"
    by (simp add: not_ready_buf_def)
  have z: "\<forall>i\<in>{2..<59}. not_ready_buf ! i = 0"
    by (simp add: not_ready_buf_def)
  have h: "not_ready_buf ! 0 = 4" "not_ready_buf ! 1 = 56"
    by (simp_all add: not_ready_buf_def)
  from not_ready_signature [OF len] show ?thesis
    using len z h by (simp add: CMD_STATUS_REPORT_def)
qed

text \<open>
  C8: \<open>get_height\<close> makes one status request and one decode and returns the ref1
  position with the float quotient of that position by 98.0, which is the binary64 number
  nearest to the exact quotient; a position of 4900 gives \<open>(4900, 50.0)\<close>. Its result
  depends on the reply to that one request only.
\<close>

theorem get_height_single_fetch:
  "ebind (get_status_report t 0) StatusReport_from_buf = Inr r \<Longrightarrow>
   get_height t = Inr (pos (ref1 r), round_double (of_int (pos (ref1 r)) / 98))
   \<and> truediv_98 (pos (ref1 r)) = Inr (round_double (of_int (pos (ref1 r)) / 98))
   \<and> (pos (ref1 r) = 4900 \<longrightarrow> get_height t = Inr (4900, 50))
   \<and> (\<forall>t'. status_reply t' 0 = status_reply t 0 \<longrightarrow> get_height t' = get_height t)"
proof -
  assume p: "ebind (get_status_report t 0) StatusReport_from_buf = Inr r"
  from poll_pos_bound [OF p] have "0 \<le> pos (ref1 r)" and "pos (ref1 r) < 2 ^ 53"
    by simp_all
  then have d: "truediv_98 (pos (ref1 r)) = Inr (round_double (of_int (pos (ref1 r)) / 98))"
    by (rule truediv_98_exact)
  have g: "get_height t = Inr (pos (ref1 r), round_double (of_int (pos (ref1 r)) / 98))"
    by (simp add: get_height_poll p d)
  have "round_double (of_int 50) = of_int 50"
    by (rule round_double_of_int) simp_all
  then have fifty: "round_double (4900 / 98) = 50"
    by simp
  have "get_height t' = get_height t" if "status_reply t' 0 = status_reply t 0" for t'
    using get_status_report_reply [OF that] by (simp add: get_height_def)
  then show ?thesis
    using g d fifty by auto
qed

text \<open>
  The transport that reports position 4900, and the one that reports 1000, where the
  quotient is not a binary64 number and is rounded to \<open>10.204081632653061\<close>.
\<close>

theorem get_height_single_fetch_witness:
  "ebind (get_status_report height_transport 0) StatusReport_from_buf
     = Inr (StatusReport_closed height_buf)
   \<and> pos (ref1 (StatusReport_closed height_buf)) = 4900
   \<and> get_height height_transport = Inr (4900, 50)
   \<and> get_height steady_transport = Inr (1000, 2872193639904653 / 281474976710656)"
proof -
  have p: "ebind (get_status_report height_transport 0) StatusReport_from_buf
      = Inr (StatusReport_closed height_buf)"
    by (rule const_reply_poll) (simp_all add: height_transport_def height_buf_def report_buf_id)
  have h: "pos (ref1 (StatusReport_closed height_buf)) = 4900"
    by (simp add: height_buf_def report_buf_ref1)
  from get_height_single_fetch [OF p]
  have "pos (ref1 (StatusReport_closed height_buf)) = 4900
      \<longrightarrow> get_height height_transport = Inr (4900, 50)"
    by blast
  with h have a: "get_height height_transport = Inr (4900, 50)"
    by blast
  from get_height_single_fetch [OF steady_poll [of 0]]
  have "get_height steady_transport
      = Inr (pos (ref1 (StatusReport_closed steady_buf)),
             round_double (of_int (pos (ref1 (StatusReport_closed steady_buf))) / 98))"
    by (rule conjunct1)
  then have b: "get_height steady_transport = Inr (1000, 2872193639904653 / 281474976710656)"
    by (simp add: steady_report round_double_1000)
  show ?thesis
    using p h a b by simp
qed

text \<open>
  C10: the result of \<^verbatim>\<open>self._move(target)\<close> is not used by the loop of \<open>move\<close>. Two
  transports whose status requests decode alike at every poll give the same outcome of
  \<open>move\<close> (the same value, the same number of iterations, the same error, or a loop
  still running), whatever byte counts they report for the move commands.
\<close>

theorem move_ignores_move_result:
  "(\<forall>k. ebind (get_status_report t1 k) StatusReport_from_buf
          = ebind (get_status_report t2 k) StatusReport_from_buf) \<Longrightarrow>
   move fuel t1 target = move fuel t2 target"
  unfolding move_def by (rule move_loop_same_polls) simp

text \<open>
  One transport reports 64 bytes for every move command, the other 0; \<^verbatim>\<open>_move\<close>
  returns true on the first and false on the second, and \<open>move\<close> ends alike on both.
\<close>

theorem move_ignores_move_result_witness:
  "move_priv settled_transport 0 1000 = Inr True
   \<and> move_priv unanswered_transport 0 1000 = Inr False
   \<and> move 4 settled_transport 1000 = move 4 unanswered_transport 1000
   \<and> move 4 unanswered_transport 1000 = Some (Inr (True, 3))"
proof -
  have e: "move 4 settled_transport 1000 = move 4 unanswered_transport 1000"
    by (rule move_ignores_move_result) (simp add: settled_poll unanswered_poll)
  have "move (Suc (Suc (Suc (Suc 0)))) unanswered_transport 1000
      = Some (Inr (True, if \<bar>ref1cnt (StatusReport_closed settled_buf) - 1000\<bar> \<le> epsilon
                             \<or> (1000::int) \<le> epsilon then 3 else 4))"
    by (rule move_steady(1) [of unanswered_transport "\<lambda>k. StatusReport_closed settled_buf"])
       (simp_all add: unanswered_poll settled_report)
  moreover have "\<bar>ref1cnt (StatusReport_closed settled_buf) - 1000\<bar> \<le> epsilon"
    by (simp add: settled_report epsilon_def)
  ultimately have u: "move 4 unanswered_transport 1000 = Some (Inr (True, 3))"
    by (simp only: four_Suc [symmetric] simp_thms if_True)
  have "move_priv settled_transport 0 1000 = Inr True"
    "move_priv unanswered_transport 0 1000 = Inr False"
    by (simp_all add: move_priv_u16 settled_transport_def unanswered_transport_def const_amount_def)
  with e u show ?thesis by simp
qed

text \<open>
  C3, as stated, fails: \<^verbatim>\<open>prev_height\<close> starts at 0, so a first poll at position 1000
  with the device counter at 0 counts as movement and leaves \<^verbatim>\<open>retry_count\<close> at 3. The
  loop is still running after three iterations and ends in the fourth.
\<close>

theorem move_steady_four_iterations:
  "status_reply steady_transport = const_reply steady_buf
   \<and> ebind (get_status_report steady_transport 0) StatusReport_from_buf
       = Inr (StatusReport_closed steady_buf)
   \<and> pos (ref1 (StatusReport_closed steady_buf)) = 1000
   \<and> move 3 steady_transport 1000 = None
   \<and> move 4 steady_transport 1000 = Some (Inr (True, 4))"
proof -
  have c: "\<not> (\<bar>ref1cnt (StatusReport_closed steady_buf) - 1000\<bar> \<le> epsilon \<or> (1000::int) \<le> epsilon)"
    by (simp add: steady_report epsilon_def)
  have "move (Suc (Suc (Suc (Suc 0)))) steady_transport 1000
      = Some (Inr (True, if \<bar>ref1cnt (StatusReport_closed steady_buf) - 1000\<bar> \<le> epsilon
                             \<or> (1000::int) \<le> epsilon then 3 else 4))"
    by (rule move_steady(1) [of steady_transport "\<lambda>k. StatusReport_closed steady_buf"])
       (simp_all add: steady_poll steady_report)
  then have four: "move 4 steady_transport 1000 = Some (Inr (True, 4))"
    using c by (simp only: four_Suc [symmetric] if_False)
  have three: "move 3 steady_transport 1000 = None"
    by (rule move_steady(2) [of steady_transport "\<lambda>k. StatusReport_closed steady_buf"])
       (simp_all add: steady_poll steady_report epsilon_def)
  show ?thesis
    by (simp add: steady_poll steady_report three four) (simp add: steady_transport_def)
qed

text \<open>
  C3, amended: if every poll decodes to a report whose ref1 position is the target, the
  loop ends and \<open>move\<close> returns true, after three iterations when the first poll passes
  the settled test (\<open>|ref1cnt - target| \<le> 13\<close> or \<open>target \<le> 13\<close>) and after four otherwise.
  Four iterations of fuel are enough.
\<close>

theorem move_steady_terminates:
  "(\<forall>k. ebind (get_status_report t k) StatusReport_from_buf = Inr (rep k)) \<Longrightarrow>
   (\<forall>k. pos (ref1 (rep k)) = target) \<Longrightarrow> 4 \<le> fuel \<Longrightarrow>
   move fuel t target
     = Some (Inr (True, if \<bar>ref1cnt (rep 0) - target\<bar> \<le> epsilon \<or> target \<le> epsilon
                         then 3 else 4))"
proof -
  assume polls: "\<forall>k. ebind (get_status_report t k) StatusReport_from_buf = Inr (rep k)"
    and pos: "\<forall>k. pos (ref1 (rep k)) = target" and fuel: "4 \<le> fuel"
  from fuel obtain g where "fuel = 4 + g"
    by (auto simp: le_iff_add)
  then have f: "fuel = Suc (Suc (Suc (Suc g)))"
    by simp
  show ?thesis
    unfolding f by (rule move_steady(1)) (simp_all add: polls pos)
qed

text \<open>With the device counter at the position as well, three iterations.\<close>

theorem move_steady_terminates_witness:
  "ebind (get_status_report settled_transport 0) StatusReport_from_buf
     = Inr (StatusReport_closed settled_buf)
   \<and> pos (ref1 (StatusReport_closed settled_buf)) = 1000
   \<and> move 4 settled_transport 1000 = Some (Inr (True, 3))"
  using move_steady_terminates [of settled_transport "\<lambda>k. StatusReport_closed settled_buf" 1000 4]
  by (simp add: settled_poll settled_report epsilon_def)

text \<open>
  C4: an iteration whose report fails the settled test (\<open>|ref1cnt - pos| > 13\<close>,
  \<open>|prev - pos| > 13\<close> and \<open>pos \<noteq> prev\<close>) sets \<^verbatim>\<open>retry_count\<close> to \<^verbatim>\<open>max_retry\<close>, which is
  not 0. If every poll decodes to such a report, the previous position being 0 at the
  first poll and the position of the poll before afterwards, the loop never ends: for
  every amount of fuel it is still running. The target is a 16-bit code, so that the move
  command can be built.
\<close>

theorem move_sustained_movement:
  "0 \<le> target \<Longrightarrow> target < 65536 \<Longrightarrow>
   (\<forall>k. ebind (get_status_report t k) StatusReport_from_buf = Inr (rep k)) \<Longrightarrow>
   epsilon < \<bar>ref1cnt (rep 0) - pos (ref1 (rep 0))\<bar> \<and> epsilon < \<bar>0 - pos (ref1 (rep 0))\<bar>
     \<and> pos (ref1 (rep 0)) \<noteq> 0 \<Longrightarrow>
   (\<forall>k. epsilon < \<bar>ref1cnt (rep (Suc k)) - pos (ref1 (rep (Suc k)))\<bar>
        \<and> epsilon < \<bar>pos (ref1 (rep k)) - pos (ref1 (rep (Suc k)))\<bar>
        \<and> pos (ref1 (rep (Suc k))) \<noteq> pos (ref1 (rep k))) \<Longrightarrow>
   (\<forall>retry_count prev r.
       epsilon < \<bar>ref1cnt r - pos (ref1 r)\<bar> \<and> epsilon < \<bar>prev - pos (ref1 r)\<bar>
       \<and> pos (ref1 r) \<noteq> prev
       \<longrightarrow> update_retry retry_count prev r = max_retry \<and> update_retry retry_count prev r \<noteq> 0)
   \<and> (\<forall>fuel. move fuel t target = None)"
proof -
  assume range: "0 \<le> target" "target < 65536"
    and polls: "\<forall>k. ebind (get_status_report t k) StatusReport_from_buf = Inr (rep k)"
    and first: "epsilon < \<bar>ref1cnt (rep 0) - pos (ref1 (rep 0))\<bar>
       \<and> epsilon < \<bar>0 - pos (ref1 (rep 0))\<bar> \<and> pos (ref1 (rep 0)) \<noteq> 0"
    and later: "\<forall>k. epsilon < \<bar>ref1cnt (rep (Suc k)) - pos (ref1 (rep (Suc k)))\<bar>
        \<and> epsilon < \<bar>pos (ref1 (rep k)) - pos (ref1 (rep (Suc k)))\<bar>
        \<and> pos (ref1 (rep (Suc k))) \<noteq> pos (ref1 (rep k))"
  have "move_loop fuel t target 0 max_retry 0 = None" for fuel
    using first by (intro move_loop_moving [OF range, of t rep]) (simp_all add: polls later)
  then have "\<forall>fuel. move fuel t target = None"
    by (simp add: move_def)
  moreover have "update_retry retry_count prev r = max_retry \<and> update_retry retry_count prev r \<noteq> 0"
    if "epsilon < \<bar>ref1cnt r - pos (ref1 r)\<bar> \<and> epsilon < \<bar>prev - pos (ref1 r)\<bar>
       \<and> pos (ref1 r) \<noteq> prev" for retry_count prev r
    using that update_retry_moving [of r prev retry_count] by (simp add: max_retry_def)
  ultimately show ?thesis by blast
qed

text \<open>
  The position alternates between 1000 and 2000: after a thousand iterations the loop is
  still running.
\<close>

theorem move_sustained_movement_witness:
  "ebind (get_status_report oscillating_transport 0) StatusReport_from_buf
     = Inr (oscillating_report 0)
   \<and> pos (ref1 (oscillating_report 0)) = 1000 \<and> pos (ref1 (oscillating_report 1)) = 2000
   \<and> pos (ref1 (oscillating_report 2)) = 1000
   \<and> update_retry 1 1000 (oscillating_report 1) = 3
   \<and> move 1000 oscillating_transport 500 = None"
proof -
  have "(\<forall>retry_count prev r.
       epsilon < \<bar>ref1cnt r - pos (ref1 r)\<bar> \<and> epsilon < \<bar>prev - pos (ref1 r)\<bar>
       \<and> pos (ref1 r) \<noteq> prev
       \<longrightarrow> update_retry retry_count prev r = max_retry \<and> update_retry retry_count prev r \<noteq> 0)
   \<and> (\<forall>fuel. move fuel oscillating_transport 500 = None)"
    by (rule move_sustained_movement [of 500 oscillating_transport oscillating_report])
       (simp_all add: oscillating_poll oscillating_values epsilon_def)
  then have u: "update_retry 1 1000 (oscillating_report 1) = max_retry"
    and m: "move 1000 oscillating_transport 500 = None"
    by (simp_all add: oscillating_values epsilon_def)
  show ?thesis
    using u m by (simp add: oscillating_poll oscillating_values max_retry_def)
qed

text \<open>
  C1, amended: \<open>StatusReport.from_buf\<close> makes no check of byte 0 and decodes every
  64-byte buffer. The check is in \<^verbatim>\<open>_get_status_report\<close>: when the device answers a
  status request with a 64-byte buffer whose byte 0 is not the status command id, the
  request fails with \<open>ProtocolMismatch\<close>, so \<open>get_height\<close> and the iteration of \<open>move\<close>
  that made the request fail with it before anything is decoded.
\<close>

theorem mismatch_rejected_by_fetch:
  "status_reply t k = (64, buf) \<Longrightarrow> length buf = 64 \<Longrightarrow> buf ! 0 \<noteq> CMD_STATUS_REPORT \<Longrightarrow>
   get_status_report t k = Inl ProtocolMismatch
   \<and> ebind (get_status_report t k) StatusReport_from_buf = Inl ProtocolMismatch
   \<and> (k = 0 \<longrightarrow> get_height t = Inl ProtocolMismatch)
   \<and> (\<forall>fuel target retry_count prev. 0 \<le> target \<and> target < 65536
         \<longrightarrow> move_loop (Suc fuel) t target k retry_count prev = Some (Inl ProtocolMismatch))
   \<and> StatusReport_from_buf buf = Inr (StatusReport_closed buf)"
proof -
  assume r: "status_reply t k = (64, buf)" and len: "length buf = 64"
    and id: "buf ! 0 \<noteq> CMD_STATUS_REPORT"
  have g: "get_status_report t k = Inl ProtocolMismatch"
    by (simp add: get_status_report_full [OF r len] id)
  have m: "move_loop (Suc fuel) t target k retry_count prev = Some (Inl ProtocolMismatch)"
    if "0 \<le> target \<and> target < 65536" for fuel target retry_count prev
  proof -
    from that move_buffer_u16 [of target] obtain sent where "move_buffer target = Inr sent"
      by blast
    then show ?thesis
      by (simp add: move_loop_Suc g)
  qed
  have h: "get_height t = Inl ProtocolMismatch" if "k = 0"
    using g that by (simp add: get_height_poll)
  show ?thesis
    using g m h by (simp add: StatusReport_from_buf_64 [OF len])
qed

text \<open>The device answering with 64 zero bytes.\<close>

theorem mismatch_rejected_by_fetch_witness:
  "status_reply zero_transport 0 = (64, zero_buf) \<and> length zero_buf = 64
   \<and> zero_buf ! 0 \<noteq> CMD_STATUS_REPORT
   \<and> get_status_report zero_transport 0 = Inl ProtocolMismatch
   \<and> get_height zero_transport = Inl ProtocolMismatch
   \<and> move 1 zero_transport 1000 = Some (Inl ProtocolMismatch)"
proof -
  have len: "length zero_buf = 64"
    by (simp add: zero_buf_def)
  have id: "zero_buf ! 0 \<noteq> CMD_STATUS_REPORT"
    by (simp add: zero_buf_def CMD_STATUS_REPORT_def)
  from mismatch_rejected_by_fetch [OF zero_poll [of 0] len id]
  have g: "get_status_report zero_transport 0 = Inl ProtocolMismatch"
    and h: "get_height zero_transport = Inl ProtocolMismatch"
    and m: "move_loop (Suc 0) zero_transport 1000 0 max_retry 0 = Some (Inl ProtocolMismatch)"
    by simp_all
  show ?thesis
    using g h m by (simp add: zero_poll len id move_def)
qed

end
